theory Spec2Isabelle
  imports Main "HOL-Library.Sublist"
begin

section \<open>Strings and the regular expressions of the generator\<close>

text \<open>
  A string is the list of the characters of the JavaScript string. The
  declaration files are ASCII texts, and the model follows the generator on such
  texts. The three regular expressions of \<open>normalizeAttributeType\<close> are not in
  Unicode mode: \<open>\w\<close> is \<open>[A-Za-z0-9_]\<close>, and the \<open>i\<close> flag compares two characters
  after \<open>canonicalize\<close>, which maps the letters \<open>a\<close> to \<open>z\<close> to their capitals and
  never maps a character beyond ASCII into ASCII. \<open>toLowerCase\<close> turns the
  letters \<open>A\<close> to \<open>Z\<close> into small letters.
\<close>

definition isWordChar :: "char \<Rightarrow> bool" where
  "isWordChar c =
     (let n = (of_char c :: nat)
      in (48 \<le> n \<and> n \<le> 57) \<or> (65 \<le> n \<and> n \<le> 90) \<or> n = 95 \<or> (97 \<le> n \<and> n \<le> 122))"

definition canonicalize :: "char \<Rightarrow> char" where
  "canonicalize c =
     (let n = (of_char c :: nat) in if 97 \<le> n \<and> n \<le> 122 then char_of (n - 32) else c)"

definition toLowerCaseChar :: "char \<Rightarrow> char" where
  "toLowerCaseChar c =
     (let n = (of_char c :: nat) in if 65 \<le> n \<and> n \<le> 90 then char_of (n + 32) else c)"

definition toLowerCase :: "string \<Rightarrow> string" where
  "toLowerCase s = map toLowerCaseChar s"

text \<open>Does the literal pattern match, ignoring case, at the start of the string?\<close>

fun matchHereIgnoreCase :: "string \<Rightarrow> string \<Rightarrow> bool" where
  "matchHereIgnoreCase [] s = True"
| "matchHereIgnoreCase (p # ps) [] = False"
| "matchHereIgnoreCase (p # ps) (c # cs) =
     (canonicalize p = canonicalize c \<and> matchHereIgnoreCase ps cs)"

text \<open>\<open>/pat/i.test(s)\<close>: try every start position from left to right.\<close>

fun regexTestIgnoreCase :: "string \<Rightarrow> string \<Rightarrow> bool" where
  "regexTestIgnoreCase pat [] = matchHereIgnoreCase pat []"
| "regexTestIgnoreCase pat (c # cs) =
     (matchHereIgnoreCase pat (c # cs) \<or> regexTestIgnoreCase pat cs)"

text \<open>
  \<open>\b\<close> holds between two neighbouring positions when exactly one of them is a
  word character; the outside of the string counts as a non-word character.
\<close>

fun isWordCharOpt :: "char option \<Rightarrow> bool" where
  "isWordCharOpt None = False"
| "isWordCharOpt (Some c) = isWordChar c"

definition wordBoundary :: "char option \<Rightarrow> string \<Rightarrow> bool" where
  "wordBoundary prev s =
     (isWordCharOpt prev \<noteq> isWordCharOpt (case s of [] \<Rightarrow> None | c # _ \<Rightarrow> Some c))"

text \<open>
  Does \<open>\bw\b\<close> match at the current position? \<open>prev\<close> is the character before
  the position, \<open>s\<close> the rest of the input.
\<close>

definition matchWholeWordHere :: "string \<Rightarrow> char option \<Rightarrow> string \<Rightarrow> bool" where
  "matchWholeWordHere w prev s =
     (wordBoundary prev s \<and> prefix w s \<and>
      wordBoundary (if w = [] then prev else Some (last w)) (drop (length w) s))"

text \<open>
  \<open>s.replace(/\bw\b/g, r)\<close> for a non-empty word \<open>w\<close> and a replacement without
  \<open>$\<close>: scan from the left; at a match emit \<open>r\<close> and go on behind the match,
  otherwise copy one character.
\<close>

function replaceWholeWord :: "string \<Rightarrow> string \<Rightarrow> char option \<Rightarrow> string \<Rightarrow> string" where
  "replaceWholeWord w r prev s =
     (if s = [] then []
      else if w \<noteq> [] \<and> matchWholeWordHere w prev s
      then r @ replaceWholeWord w r (Some (last w)) (drop (length w) s)
      else hd s # replaceWholeWord w r (Some (hd s)) (tl s))"
  by pat_completeness auto
termination
  by (relation "measure (\<lambda>(w, r, prev, s). length s)") auto

declare replaceWholeWord.simps [simp del]

definition normalizeAttributeType :: "string \<Rightarrow> string" where
  "normalizeAttributeType attrType =
     (if regexTestIgnoreCase ''EventHandler'' attrType then ''string''
      else if attrType = ''ReactNode'' then ''any''
      else replaceWholeWord ''Booleanish'' ''(boolean | 'true' | 'false')'' None
             (replaceWholeWord ''CSSProperties'' ''string'' None attrType))"


subsection \<open>Whole-word replacement, seen run by run\<close>

text \<open>
  A second reading of \<open>replace(/\bw\b/g, r)\<close>, used in the proofs: cut the string
  into its maximal runs of word characters and apply a function to every run; the
  characters between the runs are copied.
\<close>

function mapWordRuns :: "(string \<Rightarrow> string) \<Rightarrow> string \<Rightarrow> string" where
  "mapWordRuns f [] = []"
| "mapWordRuns f (c # cs) =
     (if isWordChar c
      then f (takeWhile isWordChar (c # cs)) @ mapWordRuns f (dropWhile isWordChar (c # cs))
      else c # mapWordRuns f cs)"
  by pat_completeness auto
termination
  by (relation "measure (\<lambda>(f, s). length s)") (auto simp: length_dropWhile_le less_Suc_eq_le)

declare mapWordRuns.simps(2) [simp del]

definition replaceKnownWords :: "string \<Rightarrow> string" where
  "replaceKnownWords t =
     (if t = ''CSSProperties'' then ''string''
      else if t = ''Booleanish'' then ''(boolean | 'true' | 'false')'' else t)"

section \<open>Errors\<close>

text \<open>
  Every failure of the generator is an exception that nobody catches: a failed
  \<open>assert\<close>, a ts-morph \<open>...OrThrow\<close> that finds nothing, or a file that cannot be read.
\<close>

datatype error =
    AssertionError string
  | InvalidOperationError string
  | FileNotFoundError string

section \<open>Declaration trees\<close>

text \<open>
  The nodes below a type annotation. A qualified name \<open>A.B\<close> has a left and a right
  child; any other node carries its source text and its children in source order.
\<close>

datatype node =
    Identifier string
  | QualifiedName node node
  | OtherNode string "node list"

fun getText :: "node \<Rightarrow> string" where
  "getText (Identifier s) = s"
| "getText (QualifiedName l r) = getText l @ ''.'' @ getText r"
| "getText (OtherNode t cs) = t"

fun isIdentifier :: "node \<Rightarrow> bool" where
  "isIdentifier (Identifier s) = True"
| "isIdentifier n = False"

fun getChildren :: "node \<Rightarrow> node list" where
  "getChildren (Identifier s) = []"
| "getChildren (QualifiedName l r) = [l, r]"
| "getChildren (OtherNode t cs) = cs"

fun nodeCount :: "node \<Rightarrow> nat" where
  "nodeCount (Identifier s) = 1"
| "nodeCount (QualifiedName l r) = 1 + nodeCount l + nodeCount r"
| "nodeCount (OtherNode t cs) = 1 + sum_list (map nodeCount cs)"

text \<open>
  \<open>node.forEachDescendant(cb)\<close>: call \<open>cb\<close> on every descendant, depth first and
  parents before children, and stop with the first result that is not falsy.
  \<open>forEachNodeIn\<close> is the walk over a list of siblings.
\<close>

function forEachDescendant :: "(node \<Rightarrow> 'a option) \<Rightarrow> node \<Rightarrow> 'a option"
  and forEachNodeIn :: "(node \<Rightarrow> 'a option) \<Rightarrow> node list \<Rightarrow> 'a option" where
  "forEachDescendant cb n = forEachNodeIn cb (getChildren n)"
| "forEachNodeIn cb [] = None"
| "forEachNodeIn cb (c # cs) =
     (case cb c of
        Some r \<Rightarrow> Some r
      | None \<Rightarrow> (case forEachDescendant cb c of
                   Some r \<Rightarrow> Some r
                 | None \<Rightarrow> forEachNodeIn cb cs))"
  by pat_completeness auto
termination
proof (relation "measure (\<lambda>x. case x of
                    Inl (cb, n) \<Rightarrow> 2 * nodeCount n
                  | Inr (cb, ns) \<Rightarrow> 2 * sum_list (map nodeCount ns) + 1)")
  show "wf (measure (\<lambda>x. case x of
                    Inl (cb :: node \<Rightarrow> 'a option, n) \<Rightarrow> 2 * nodeCount n
                  | Inr (cb, ns) \<Rightarrow> 2 * sum_list (map nodeCount ns) + 1))"
    by simp
next
  fix cb :: "node \<Rightarrow> 'a option" and n
  show "(Inr (cb, getChildren n), Inl (cb, n)) \<in> measure (\<lambda>x. case x of
                    Inl (cb, n) \<Rightarrow> 2 * nodeCount n
                  | Inr (cb, ns) \<Rightarrow> 2 * sum_list (map nodeCount ns) + 1)"
    by (cases n) simp_all
next
  fix cb :: "node \<Rightarrow> 'a option" and c cs
  show "(Inl (cb, c), Inr (cb, c # cs)) \<in> measure (\<lambda>x. case x of
                    Inl (cb, n) \<Rightarrow> 2 * nodeCount n
                  | Inr (cb, ns) \<Rightarrow> 2 * sum_list (map nodeCount ns) + 1)"
    by simp
next
  fix cb :: "node \<Rightarrow> 'a option" and c cs
  have "0 < nodeCount c" by (cases c) simp_all
  then show "(Inr (cb, cs), Inr (cb, c # cs)) \<in> measure (\<lambda>x. case x of
                    Inl (cb, n) \<Rightarrow> 2 * nodeCount n
                  | Inr (cb, ns) \<Rightarrow> 2 * sum_list (map nodeCount ns) + 1)"
    by simp
qed

declare forEachDescendant.simps [simp del]

text \<open>The descendants of a node in the order \<open>forEachDescendant\<close> visits them.\<close>

fun descendants :: "node \<Rightarrow> node list" where
  "descendants (Identifier s) = []"
| "descendants (QualifiedName l r) = l # descendants l @ r # descendants r"
| "descendants (OtherNode t cs) = concat (map (\<lambda>c. c # descendants c) cs)"

text \<open>A type written from text: later stages read its text only.\<close>

definition typeNodeOfText :: "string \<Rightarrow> node" where
  "typeNodeOfText t = OtherNode t []"

record property_signature =
  propertyName :: string
  propertyType :: "node option"
  hasQuestionToken :: bool

text \<open>
  The members of an interface in source order. \<open>getProperties()\<close> returns the
  property signatures only; methods, index and call signatures are other members.
\<close>

datatype member =
    PropertySignature property_signature
  | OtherMember string

text \<open>One entry of an \<open>extends\<close> clause: the expression and its type arguments.\<close>

record expression_with_type_arguments =
  expression :: string
  typeArguments :: "string list"

record interface_declaration =
  interfaceName :: string
  typeParameters :: "string list"
  extends :: "expression_with_type_arguments list"
  members :: "member list"

record type_alias_declaration =
  aliasName :: string
  aliasTypeParameters :: "string list"
  aliasType :: string

datatype interface_or_type_alias =
    InterfaceDeclaration interface_declaration
  | TypeAliasDeclaration type_alias_declaration

text \<open>
  A statement of a source file or of a namespace body. Namespaces (module
  declarations) and other nodes with a statement list of their own are what
  \<open>Node.isStatementedNode\<close> accepts.
\<close>

datatype statement =
    Declaration interface_or_type_alias
  | ModuleDeclaration string "statement list"
  | OtherStatementedNode "statement list"
  | OtherStatement string

type_synonym source_file = "statement list"

fun joinStrings :: "string \<Rightarrow> string list \<Rightarrow> string" where
  "joinStrings sep [] = []"
| "joinStrings sep [x] = x"
| "joinStrings sep (x # y # ys) = x @ sep @ joinStrings sep (y # ys)"

definition extendsText :: "expression_with_type_arguments \<Rightarrow> string" where
  "extendsText e =
     expression e @
     (if typeArguments e = [] then [] else ''<'' @ joinStrings '', '' (typeArguments e) @ ''>'')"

fun getProperties :: "member list \<Rightarrow> property_signature list" where
  "getProperties [] = []"
| "getProperties (PropertySignature p # ms) = p # getProperties ms"
| "getProperties (OtherMember m # ms) = getProperties ms"

fun getName :: "interface_or_type_alias \<Rightarrow> string" where
  "getName (InterfaceDeclaration i) = interfaceName i"
| "getName (TypeAliasDeclaration a) = aliasName a"

subsection \<open>Looking up and replacing named statements\<close>

fun getNamespaceOrThrow :: "string \<Rightarrow> statement list \<Rightarrow> error + statement list" where
  "getNamespaceOrThrow name [] =
     Inl (InvalidOperationError (''Expected to find a namespace named '' @ name))"
| "getNamespaceOrThrow name (ModuleDeclaration n body # ss) =
     (if n = name then Inr body else getNamespaceOrThrow name ss)"
| "getNamespaceOrThrow name (s # ss) = getNamespaceOrThrow name ss"

fun getInterfaceOrThrow :: "string \<Rightarrow> statement list \<Rightarrow> error + interface_declaration" where
  "getInterfaceOrThrow name [] =
     Inl (InvalidOperationError (''Expected to find an interface named '' @ name))"
| "getInterfaceOrThrow name (Declaration (InterfaceDeclaration i) # ss) =
     (if interfaceName i = name then Inr i else getInterfaceOrThrow name ss)"
| "getInterfaceOrThrow name (s # ss) = getInterfaceOrThrow name ss"

text \<open>
  The nodes are mutated in place. In the model the changed node is written back
  at the place where the lookup found it: the first namespace, or the first
  interface, of that name.
\<close>

fun setNamespace :: "string \<Rightarrow> statement list \<Rightarrow> statement list \<Rightarrow> statement list" where
  "setNamespace name body' [] = []"
| "setNamespace name body' (ModuleDeclaration n body # ss) =
     (if n = name then ModuleDeclaration n body' # ss
      else ModuleDeclaration n body # setNamespace name body' ss)"
| "setNamespace name body' (s # ss) = s # setNamespace name body' ss"

fun setInterface :: "string \<Rightarrow> interface_declaration \<Rightarrow> statement list \<Rightarrow> statement list" where
  "setInterface name i' [] = []"
| "setInterface name i' (Declaration (InterfaceDeclaration i) # ss) =
     (if interfaceName i = name then Declaration (InterfaceDeclaration i') # ss
      else Declaration (InterfaceDeclaration i) # setInterface name i' ss)"
| "setInterface name i' (s # ss) = s # setInterface name i' ss"


section \<open>The Collector\<close>

text \<open>
  \<open>getAllInterfacesAndTypeAliases\<close>: the interfaces and type aliases of a statement
  list and of every statemented node below it, in document order.
\<close>

fun getAllInterfacesAndTypeAliases :: "statement list \<Rightarrow> interface_or_type_alias list" where
  "getAllInterfacesAndTypeAliases [] = []"
| "getAllInterfacesAndTypeAliases (Declaration d # cs) =
     d # getAllInterfacesAndTypeAliases cs"
| "getAllInterfacesAndTypeAliases (ModuleDeclaration n body # cs) =
     getAllInterfacesAndTypeAliases body @ getAllInterfacesAndTypeAliases cs"
| "getAllInterfacesAndTypeAliases (OtherStatementedNode body # cs) =
     getAllInterfacesAndTypeAliases body @ getAllInterfacesAndTypeAliases cs"
| "getAllInterfacesAndTypeAliases (OtherStatement t # cs) =
     getAllInterfacesAndTypeAliases cs"

section \<open>The Normalizer\<close>

subsection \<open>The extends clauses\<close>

text \<open>
  The loop runs over the array \<open>getExtends()\<close> returned before the first change
  (\<open>snapshot\<close>); \<open>current\<close> is the clause list of the interface as it stands.
  \<open>removeExtends\<close> takes the visited node out and \<open>addExtends\<close> appends a new clause
  at the end. The visited node is always the first of the current list, because
  every earlier one has been removed or re-appended behind it, so \<open>remove1\<close>
  removes that very node.
\<close>

fun updateExtends ::
  "string \<Rightarrow> expression_with_type_arguments list \<Rightarrow> expression_with_type_arguments list
   \<Rightarrow> error + expression_with_type_arguments list" where
  "updateExtends iname [] current = Inr current"
| "updateExtends iname (extendsExpr # snapshot) current =
     (let exprText = expression extendsExpr in
      if exprText = ''ClassAttributes''
      then updateExtends iname snapshot (remove1 extendsExpr current)
      else if exprText = ''AriaAttributes'' \<or> exprText = ''DOMAttributes'' \<or>
              exprText = ''HTMLAttributes'' \<or> exprText = ''MediaHTMLAttributes'' \<or>
              exprText = ''SVGAttributes''
      then updateExtends iname snapshot
             (remove1 extendsExpr current @ [\<lparr>expression = exprText, typeArguments = []\<rparr>])
      else Inl (AssertionError
                 (''Interface '' @ iname @ '' has unexpected parent interface: '' @ exprText)))"

subsection \<open>The properties\<close>

text \<open>
  The property loop changes the member list while it runs: it removes a member,
  rewrites a member in place and appends members. To keep the nodes apart, every
  member carries an identity (a number); the loop runs over the identities of the
  property signatures that \<open>getProperties()\<close> returned before the first change.
\<close>

type_synonym member_nodes = "(nat \<times> member) list"

definition numberMembers :: "member list \<Rightarrow> member_nodes" where
  "numberMembers ms = zip [0..<length ms] ms"

fun getPropertyNodes :: "member_nodes \<Rightarrow> nat list" where
  "getPropertyNodes [] = []"
| "getPropertyNodes ((i, PropertySignature p) # ns) = i # getPropertyNodes ns"
| "getPropertyNodes ((i, OtherMember m) # ns) = getPropertyNodes ns"

definition removeNode :: "nat \<Rightarrow> member_nodes \<Rightarrow> member_nodes" where
  "removeNode i ns = filter (\<lambda>(j, m). j \<noteq> i) ns"

definition setNode :: "nat \<Rightarrow> member \<Rightarrow> member_nodes \<Rightarrow> member_nodes" where
  "setNode i m' ns = map (\<lambda>(j, m). if j = i then (j, m') else (j, m)) ns"

definition freshNode :: "member_nodes \<Rightarrow> nat" where
  "freshNode ns = Suc (fold max (map fst ns) 0)"

definition addProperty :: "property_signature \<Rightarrow> member_nodes \<Rightarrow> member_nodes" where
  "addProperty p ns = ns @ [(freshNode ns, PropertySignature p)]"

text \<open>The React-specific properties that the loop deletes.\<close>

definition isUnsupportedProperty :: "string \<Rightarrow> bool" where
  "isUnsupportedProperty propName =
     (propName = ''defaultChecked'' \<or> propName = ''defaultValue'' \<or>
      propName = ''suppressContentEditableWarning'' \<or>
      propName = ''suppressHydrationWarning'')"

text \<open>
  The structure of a property after the two rewrites of the loop body; \<open>typeText\<close>
  is \<open>structure.type\<close>, the text of the type annotation.
\<close>

definition normalizeStructure :: "property_signature \<Rightarrow> string \<Rightarrow> property_signature" where
  "normalizeStructure propertySignature typeText =
     (let propName = propertyName propertySignature in
      propertySignature
        \<lparr>propertyName :=
           (if propName \<noteq> ''className'' \<and> propName \<noteq> ''dangerouslySetInnerHTML'' \<and>
               propName \<noteq> ''htmlFor''
            then toLowerCase propName else propName),
         propertyType :=
           Some (typeNodeOfText
                   (if propName \<noteq> ''dangerouslySetInnerHTML''
                    then normalizeAttributeType typeText else typeText))\<rparr>)"

text \<open>The body of the loop, for the property signature with identity \<open>i\<close>.\<close>

definition processProperty :: "nat \<Rightarrow> member_nodes \<Rightarrow> error + member_nodes" where
  "processProperty i ns =
     (case map_of ns i of
        Some (PropertySignature propertySignature) \<Rightarrow>
          (let propName = propertyName propertySignature in
           if isUnsupportedProperty propName then Inr (removeNode i ns)
           else
             (case propertyType propertySignature of
                None \<Rightarrow> Inl (AssertionError ''Unexpected structure.type type: undefined'')
              | Some typeNode \<Rightarrow>
                  (let structure = normalizeStructure propertySignature (getText typeNode);
                       ns' = setNode i (PropertySignature structure) ns
                   in if propName = ''className''
                      then Inr (addProperty (structure\<lparr>propertyName := ''class''\<rparr>) ns')
                      else if propName = ''htmlFor''
                      then Inr (addProperty (structure\<lparr>propertyName := ''for''\<rparr>) ns')
                      else Inr ns')))
      | _ \<Rightarrow> Inl (InvalidOperationError ''Attempted to use a node that was removed''))"

fun forEachProperty :: "nat list \<Rightarrow> member_nodes \<Rightarrow> error + member_nodes" where
  "forEachProperty [] ns = Inr ns"
| "forEachProperty (i # snapshot) ns =
     (case processProperty i ns of
        Inl e \<Rightarrow> Inl e
      | Inr ns' \<Rightarrow> forEachProperty snapshot ns')"

definition updateProperties :: "member list \<Rightarrow> error + member list" where
  "updateProperties ms =
     (let ns = numberMembers ms in
      case forEachProperty (getPropertyNodes ns) ns of
        Inl e \<Rightarrow> Inl e
      | Inr ns' \<Rightarrow> Inr (map snd ns'))"

definition updateAttributesInterface :: "interface_declaration \<Rightarrow> error + interface_declaration" where
  "updateAttributesInterface interfaceNode =
     (case updateExtends (interfaceName interfaceNode) (extends interfaceNode)
             (extends interfaceNode) of
        Inl e \<Rightarrow> Inl e
      | Inr es \<Rightarrow>
          (case updateProperties (members interfaceNode) of
             Inl e \<Rightarrow> Inl e
           | Inr ms \<Rightarrow> Inr (interfaceNode\<lparr>typeParameters := [], extends := es, members := ms\<rparr>)))"

section \<open>The Extractor\<close>

text \<open>The callback handed to \<open>forEachDescendant\<close>.\<close>

definition targetInterfaceIdentifier :: "node \<Rightarrow> node option" where
  "targetInterfaceIdentifier n =
     (case n of
        QualifiedName l r \<Rightarrow>
          (if getText l = ''React'' \<and> isIdentifier r \<and> getText r \<noteq> ''DetailedHTMLProps''
           then Some r else None)
      | _ \<Rightarrow> None)"

text \<open>\<open>Set.add\<close> on a set kept as a list without repetitions.\<close>

definition setAdd :: "string \<Rightarrow> string list \<Rightarrow> string list" where
  "setAdd x xs = (if x \<in> set xs then xs else xs @ [x])"

text \<open>
  The loop over the properties of \<open>IntrinsicElements\<close>. No member is added or
  removed here, so every property signature is rewritten where it stands.
\<close>

fun extractProperties :: "member list \<Rightarrow> string list \<Rightarrow> error + (member list \<times> string list)" where
  "extractProperties [] names = Inr ([], names)"
| "extractProperties (OtherMember m # ms) names =
     (case extractProperties ms names of
        Inl e \<Rightarrow> Inl e
      | Inr (ms', names') \<Rightarrow> Inr (OtherMember m # ms', names'))"
| "extractProperties (PropertySignature propertySignature # ms) names =
     (case propertyType propertySignature of
        None \<Rightarrow> Inl (InvalidOperationError ''Expected to find a type node.'')
      | Some typeNode \<Rightarrow>
          (case forEachDescendant targetInterfaceIdentifier typeNode of
             None \<Rightarrow> Inl (AssertionError ''Cannot find target identifier'')
           | Some target \<Rightarrow>
               (case extractProperties ms (setAdd (getText target) names) of
                  Inl e \<Rightarrow> Inl e
                | Inr (ms', names') \<Rightarrow>
                    Inr (PropertySignature
                           (propertySignature
                              \<lparr>propertyType := Some (typeNodeOfText (getText target))\<rparr>) # ms',
                         names'))))"

text \<open>
  Returns the interface, the set of names, and the source file with the rewritten
  interface in it (the interface is a node of that file and was changed in place).
\<close>

definition extractIntrinsicElementsInterface ::
  "source_file \<Rightarrow> error + (interface_declaration \<times> string list \<times> source_file)" where
  "extractIntrinsicElementsInterface sourceFile =
     (case getNamespaceOrThrow ''global'' sourceFile of
        Inl e \<Rightarrow> Inl e
      | Inr global \<Rightarrow>
     (case getNamespaceOrThrow ''JSX'' global of
        Inl e \<Rightarrow> Inl e
      | Inr jsx \<Rightarrow>
     (case getInterfaceOrThrow ''IntrinsicElements'' jsx of
        Inl e \<Rightarrow> Inl e
      | Inr intrinsicElementsInterface \<Rightarrow>
     (case extractProperties (members intrinsicElementsInterface) [] of
        Inl e \<Rightarrow> Inl e
      | Inr (ms, propertyInterfaceNames) \<Rightarrow>
          (let i' = intrinsicElementsInterface\<lparr>members := ms\<rparr> in
           Inr (i', propertyInterfaceNames,
                setNamespace ''global''
                  (setNamespace ''JSX'' (setInterface ''IntrinsicElements'' i' jsx) global)
                  sourceFile))))))"

section \<open>The generator\<close>

text \<open>The second pass: the loop over all interfaces and type aliases.\<close>

fun extractInterfaceNodes ::
  "string list \<Rightarrow> interface_or_type_alias list \<Rightarrow> error + interface_or_type_alias list" where
  "extractInterfaceNodes typeNamesToExtract [] = Inr []"
| "extractInterfaceNodes typeNamesToExtract (n # ns) =
     (if getName n \<in> set typeNamesToExtract
      then (case n of
              InterfaceDeclaration i \<Rightarrow>
                (case updateAttributesInterface i of
                   Inl e \<Rightarrow> Inl e
                 | Inr updatedInterfaceNode \<Rightarrow>
                     (case extractInterfaceNodes typeNamesToExtract ns of
                        Inl e \<Rightarrow> Inl e
                      | Inr rest \<Rightarrow> Inr (InterfaceDeclaration updatedInterfaceNode # rest)))
            | TypeAliasDeclaration a \<Rightarrow>
                (case extractInterfaceNodes typeNamesToExtract ns of
                   Inl e \<Rightarrow> Inl e
                 | Inr rest \<Rightarrow> Inr (TypeAliasDeclaration a # rest)))
      else extractInterfaceNodes typeNamesToExtract ns)"

text \<open>The Emitter: what is added to the \<open>JSX\<close> namespace for one extracted node.\<close>

fun emitNode :: "interface_or_type_alias \<Rightarrow> interface_or_type_alias" where
  "emitNode (InterfaceDeclaration node) =
     (if length (getProperties (members node)) = 0
      then TypeAliasDeclaration
             \<lparr>aliasName = interfaceName node, aliasTypeParameters = [],
              aliasType = joinStrings ''&''
                            (map (\<lambda>e. ''('' @ extendsText e @ '')'') (extends node))\<rparr>
      else InterfaceDeclaration node)"
| "emitNode (TypeAliasDeclaration node) = TypeAliasDeclaration node"

definition alwaysIncluded :: "string list" where
  "alwaysIncluded =
     [''AriaAttributes'', ''DOMAttributes'', ''HTMLAttributeReferrerPolicy'',
      ''HTMLAttributes'', ''MediaHTMLAttributes'', ''SVGAttributes'']"

text \<open>
  The work of \<open>generateJsxTypesForVhtml\<close> between reading the two files and writing
  the third. \<open>IntrinsicElements\<close> is itself one of the nodes the second pass walks
  over; should its own name be among the names to extract, the second pass
  normalizes that very node before its structure is copied into the output.
\<close>

definition buildTypeDefinitions :: "source_file \<Rightarrow> source_file \<Rightarrow> error + source_file" where
  "buildTypeDefinitions inputSourceFile reactSourceFile =
     (case getNamespaceOrThrow ''global'' inputSourceFile of
        Inl e \<Rightarrow> Inl e
      | Inr inputGlobal \<Rightarrow>
     (case getNamespaceOrThrow ''JSX'' inputGlobal of
        Inl e \<Rightarrow> Inl e
      | Inr inputJsxNamespace \<Rightarrow>
     (case extractIntrinsicElementsInterface reactSourceFile of
        Inl e \<Rightarrow> Inl e
      | Inr (intrinsicElementsInterface, names, reactSourceFile') \<Rightarrow>
          (let typeNamesToExtract = fold setAdd alwaysIncluded names in
           case extractInterfaceNodes typeNamesToExtract
                  (getAllInterfacesAndTypeAliases reactSourceFile') of
             Inl e \<Rightarrow> Inl e
           | Inr extractedInterfaceNodes \<Rightarrow>
               (let intrinsic =
                      (if ''IntrinsicElements'' \<in> set typeNamesToExtract
                       then (case updateAttributesInterface intrinsicElementsInterface of
                               Inl e \<Rightarrow> intrinsicElementsInterface
                             | Inr u \<Rightarrow> u)
                       else intrinsicElementsInterface);
                    added = Declaration (InterfaceDeclaration intrinsic) #
                            map (\<lambda>n. Declaration (emitNode n)) extractedInterfaceNodes
                in Inr (setNamespace ''global''
                          (setNamespace ''JSX'' (inputJsxNamespace @ added) inputGlobal)
                          inputSourceFile))))))"

text \<open>
  The file system maps a path to the text of the file. Parsing a file into its
  tree, and printing (with formatting) a tree into text, belong to ts-morph and
  are parameters. The paths name different files.
\<close>

type_synonym file_system = "string \<rightharpoonup> string"

definition generateJsxTypesForVhtml ::
  "(string \<Rightarrow> source_file) \<Rightarrow> (source_file \<Rightarrow> string) \<Rightarrow>
   string \<Rightarrow> string \<Rightarrow> string \<Rightarrow> file_system \<Rightarrow> error + file_system" where
  "generateJsxTypesForVhtml parseText printText inputTypesFile reactTypesFile outputTypesFile fs =
     (case fs inputTypesFile of
        None \<Rightarrow> Inl (FileNotFoundError inputTypesFile)
      | Some inputText \<Rightarrow>
     (case fs reactTypesFile of
        None \<Rightarrow> Inl (FileNotFoundError reactTypesFile)
      | Some reactText \<Rightarrow>
     (case buildTypeDefinitions (parseText inputText) (parseText reactText) of
        Inl e \<Rightarrow> Inl e
      | Inr outputSourceFile \<Rightarrow> Inr (fs(outputTypesFile \<mapsto> printText outputSourceFile)))))"

definition main :: "(string \<Rightarrow> source_file) \<Rightarrow> (source_file \<Rightarrow> string) \<Rightarrow>
   file_system \<Rightarrow> error + file_system" where
  "main parseText printText =
     generateJsxTypesForVhtml parseText printText
       ''input/vhtml.d.ts'' ''node_modules/@types/react/index.d.ts'' ''types/index.d.ts''"


section \<open>Notions used to state the properties\<close>

subsection \<open>The Normalizer, member by member\<close>

text \<open>
  What one member of the source interface leaves at its own place: nothing for an
  unsupported property, the normalized structure for any other property, the
  member itself otherwise.
\<close>

fun keptMember :: "member \<Rightarrow> member list" where
  "keptMember (OtherMember m) = [OtherMember m]"
| "keptMember (PropertySignature p) =
     (if isUnsupportedProperty (propertyName p) then []
      else (case propertyType p of
              None \<Rightarrow> []
            | Some t \<Rightarrow> [PropertySignature (normalizeStructure p (getText t))]))"

text \<open>The copy that a \<open>className\<close> or \<open>htmlFor\<close> property adds under its alias.\<close>

fun duplicateMember :: "member \<Rightarrow> member list" where
  "duplicateMember (OtherMember m) = []"
| "duplicateMember (PropertySignature p) =
     (if isUnsupportedProperty (propertyName p) then []
      else (case propertyType p of
        None \<Rightarrow> []
      | Some t \<Rightarrow>
          (if propertyName p = ''className''
           then [PropertySignature (normalizeStructure p (getText t)\<lparr>propertyName := ''class''\<rparr>)]
           else if propertyName p = ''htmlFor''
           then [PropertySignature (normalizeStructure p (getText t)\<lparr>propertyName := ''for''\<rparr>)]
           else [])))"

text \<open>A property that is kept but has no type annotation stops the run.\<close>

fun lacksType :: "member \<Rightarrow> bool" where
  "lacksType (OtherMember m) = False"
| "lacksType (PropertySignature p) =
     (\<not> isUnsupportedProperty (propertyName p) \<and> propertyType p = None)"

definition typeAssertion :: error where
  "typeAssertion = AssertionError ''Unexpected structure.type type: undefined''"

definition eraseTypeArguments ::
  "expression_with_type_arguments \<Rightarrow> expression_with_type_arguments" where
  "eraseTypeArguments e = \<lparr>expression = expression e, typeArguments = []\<rparr>"

definition isExpectedParent :: "string \<Rightarrow> bool" where
  "isExpectedParent x =
     (x \<in> set [''AriaAttributes'', ''DOMAttributes'', ''HTMLAttributes'',
               ''MediaHTMLAttributes'', ''SVGAttributes''])"

subsection \<open>The Extractor, property by property\<close>

fun firstSome :: "('a \<Rightarrow> 'b option) \<Rightarrow> 'a list \<Rightarrow> 'b option" where
  "firstSome cb [] = None"
| "firstSome cb (x # xs) = (case cb x of Some r \<Rightarrow> Some r | None \<Rightarrow> firstSome cb xs)"

text \<open>
  A qualified name whose left-hand side reads \<open>React\<close> and whose right-hand side is
  an identifier other than \<open>DetailedHTMLProps\<close>.
\<close>

fun isTargetQualifiedName :: "node \<Rightarrow> bool" where
  "isTargetQualifiedName (QualifiedName l r) =
     (getText l = ''React'' \<and> isIdentifier r \<and> getText r \<noteq> ''DetailedHTMLProps'')"
| "isTargetQualifiedName n = False"

text \<open>The right-hand text of the first such name among the descendants of a type.\<close>

definition targetTypeName :: "node \<Rightarrow> string option" where
  "targetTypeName typeNode =
     (case find isTargetQualifiedName (descendants typeNode) of
        Some (QualifiedName l r) \<Rightarrow> Some (getText r)
      | _ \<Rightarrow> None)"

definition propertyTarget :: "property_signature \<Rightarrow> string option" where
  "propertyTarget p = (case propertyType p of None \<Rightarrow> None | Some t \<Rightarrow> targetTypeName t)"

fun retypeMember :: "member \<Rightarrow> member" where
  "retypeMember (OtherMember m) = OtherMember m"
| "retypeMember (PropertySignature p) =
     (case propertyTarget p of
        None \<Rightarrow> PropertySignature p
      | Some name \<Rightarrow> PropertySignature (p\<lparr>propertyType := Some (typeNodeOfText name)\<rparr>))"

subsection \<open>Reading the output\<close>


section \<open>Example declarations\<close>

text \<open>
  Small declarations in the shape of those of \<open>@types/react\<close>, on which the
  properties below are run.
\<close>

definition typeReference :: "string \<Rightarrow> node" where
  "typeReference name = OtherNode name [Identifier name]"

text \<open>\<open>onClick?: MouseEventHandler<T>\<close>\<close>

definition onClickProperty :: property_signature where
  "onClickProperty =
     \<lparr>propertyName = ''onClick'',
      propertyType = Some (OtherNode ''MouseEventHandler<T>''
                             [Identifier ''MouseEventHandler'', typeReference ''T'']),
      hasQuestionToken = True\<rparr>"

text \<open>
  \<open>interface LabelHTMLAttributes<T> extends HTMLAttributes<T> {
       form?: string; htmlFor?: string; className?: string; defaultValue?: string;
       style?: CSSProperties; [key: string]: any; onClick?: MouseEventHandler<T> }\<close>
\<close>

definition labelAttributes :: interface_declaration where
  "labelAttributes =
     \<lparr>interfaceName = ''LabelHTMLAttributes'', typeParameters = [''T''],
      extends = [\<lparr>expression = ''HTMLAttributes'', typeArguments = [''T'']\<rparr>],
      members =
        [PropertySignature \<lparr>propertyName = ''form'',
           propertyType = Some (OtherNode ''string'' []), hasQuestionToken = True\<rparr>,
         PropertySignature \<lparr>propertyName = ''htmlFor'',
           propertyType = Some (OtherNode ''string'' []), hasQuestionToken = True\<rparr>,
         PropertySignature \<lparr>propertyName = ''className'',
           propertyType = Some (OtherNode ''string'' []), hasQuestionToken = True\<rparr>,
         PropertySignature \<lparr>propertyName = ''defaultValue'',
           propertyType = Some (OtherNode ''string'' []), hasQuestionToken = True\<rparr>,
         PropertySignature \<lparr>propertyName = ''style'',
           propertyType = Some (typeReference ''CSSProperties''), hasQuestionToken = True\<rparr>,
         OtherMember ''[key: string]: any'',
         PropertySignature onClickProperty]\<rparr>"

text \<open>\<open>interface SVGProps<T> extends SVGAttributes<T>, ClassAttributes<T> {}\<close>\<close>

definition svgProps :: interface_declaration where
  "svgProps =
     \<lparr>interfaceName = ''SVGProps'', typeParameters = [''T''],
      extends = [\<lparr>expression = ''SVGAttributes'', typeArguments = [''T'']\<rparr>,
                 \<lparr>expression = ''ClassAttributes'', typeArguments = [''T'']\<rparr>],
      members = []\<rparr>"

text \<open>\<open>interface RefProps<T> extends ClassAttributes<T> { defaultValue?: string }\<close>\<close>

definition refProps :: interface_declaration where
  "refProps =
     \<lparr>interfaceName = ''RefProps'', typeParameters = [''T''],
      extends = [\<lparr>expression = ''ClassAttributes'', typeArguments = [''T'']\<rparr>],
      members =
        [PropertySignature \<lparr>propertyName = ''defaultValue'',
           propertyType = Some (OtherNode ''string'' []), hasQuestionToken = True\<rparr>]\<rparr>"

text \<open>
  \<open>interface ButtonProps extends DOMAttributes<T>, Props {}\<close>: a parent outside the
  fixed list.
\<close>

definition buttonProps :: interface_declaration where
  "buttonProps =
     \<lparr>interfaceName = ''ButtonProps'', typeParameters = [],
      extends = [\<lparr>expression = ''DOMAttributes'', typeArguments = [''T'']\<rparr>,
                 \<lparr>expression = ''Props'', typeArguments = []\<rparr>],
      members = []\<rparr>"

text \<open>
  \<open>interface IntrinsicElements {
       a: React.DetailedHTMLProps<React.AnchorHTMLAttributes<HTMLAnchorElement>, HTMLAnchorElement>;
       svg: React.SVGProps<SVGSVGElement>;
       view: React.RefProps<SVGViewElement> }\<close>
\<close>

definition intrinsicElements :: interface_declaration where
  "intrinsicElements =
     \<lparr>interfaceName = ''IntrinsicElements'', typeParameters = [], extends = [],
      members =
        [PropertySignature \<lparr>propertyName = ''a'',
           propertyType = Some (OtherNode
             ''React.DetailedHTMLProps<React.AnchorHTMLAttributes<HTMLAnchorElement>, HTMLAnchorElement>''
             [QualifiedName (Identifier ''React'') (Identifier ''DetailedHTMLProps''),
              OtherNode ''React.AnchorHTMLAttributes<HTMLAnchorElement>''
                [QualifiedName (Identifier ''React'') (Identifier ''AnchorHTMLAttributes''),
                 typeReference ''HTMLAnchorElement''],
              typeReference ''HTMLAnchorElement'']),
           hasQuestionToken = False\<rparr>,
         PropertySignature \<lparr>propertyName = ''svg'',
           propertyType = Some (OtherNode ''React.SVGProps<SVGSVGElement>''
             [QualifiedName (Identifier ''React'') (Identifier ''SVGProps''),
              typeReference ''SVGSVGElement'']),
           hasQuestionToken = False\<rparr>,
         PropertySignature \<lparr>propertyName = ''view'',
           propertyType = Some (OtherNode ''React.RefProps<SVGViewElement>''
             [QualifiedName (Identifier ''React'') (Identifier ''RefProps''),
              typeReference ''SVGViewElement'']),
           hasQuestionToken = False\<rparr>]\<rparr>"

text \<open>
  \<open>interface DOMAttributes<T> { onClick?: MouseEventHandler<T> }\<close>, declared twice
  in the source library below, as a merged interface is.
\<close>

definition domAttributes :: interface_declaration where
  "domAttributes =
     \<lparr>interfaceName = ''DOMAttributes'', typeParameters = [''T''], extends = [],
      members = [PropertySignature onClickProperty]\<rparr>"

text \<open>The source library: a \<open>React\<close> namespace and the \<open>global.JSX\<close> table.\<close>

definition reactTypes :: source_file where
  "reactTypes =
     [ModuleDeclaration ''React''
        [Declaration (InterfaceDeclaration domAttributes),
         Declaration (InterfaceDeclaration svgProps),
         Declaration (InterfaceDeclaration domAttributes),
         Declaration (InterfaceDeclaration refProps),
         Declaration (InterfaceDeclaration buttonProps)],
      ModuleDeclaration ''global''
        [ModuleDeclaration ''JSX'' [Declaration (InterfaceDeclaration intrinsicElements)]]]"

text \<open>The template: an export and an empty \<open>global.JSX\<close>.\<close>

definition inputTypes :: source_file where
  "inputTypes =
     [OtherStatement ''export = vhtml;'',
      ModuleDeclaration ''global'' [ModuleDeclaration ''JSX'' []]]"

text \<open>What the Normalizer makes of \<open>LabelHTMLAttributes\<close>.\<close>

definition labelAttributesNormalized :: interface_declaration where
  "labelAttributesNormalized =
     \<lparr>interfaceName = ''LabelHTMLAttributes'', typeParameters = [],
      extends = [\<lparr>expression = ''HTMLAttributes'', typeArguments = []\<rparr>],
      members =
        [PropertySignature \<lparr>propertyName = ''form'',
           propertyType = Some (OtherNode ''string'' []), hasQuestionToken = True\<rparr>,
         PropertySignature \<lparr>propertyName = ''htmlFor'',
           propertyType = Some (OtherNode ''string'' []), hasQuestionToken = True\<rparr>,
         PropertySignature \<lparr>propertyName = ''className'',
           propertyType = Some (OtherNode ''string'' []), hasQuestionToken = True\<rparr>,
         PropertySignature \<lparr>propertyName = ''style'',
           propertyType = Some (OtherNode ''string'' []), hasQuestionToken = True\<rparr>,
         OtherMember ''[key: string]: any'',
         PropertySignature \<lparr>propertyName = ''onclick'',
           propertyType = Some (OtherNode ''string'' []), hasQuestionToken = True\<rparr>,
         PropertySignature \<lparr>propertyName = ''for'',
           propertyType = Some (OtherNode ''string'' []), hasQuestionToken = True\<rparr>,
         PropertySignature \<lparr>propertyName = ''class'',
           propertyType = Some (OtherNode ''string'' []), hasQuestionToken = True\<rparr>]\<rparr>"

text \<open>What the Extractor makes of \<open>IntrinsicElements\<close>.\<close>

definition intrinsicElementsExtracted :: interface_declaration where
  "intrinsicElementsExtracted =
     \<lparr>interfaceName = ''IntrinsicElements'', typeParameters = [], extends = [],
      members =
        [PropertySignature \<lparr>propertyName = ''a'',
           propertyType = Some (OtherNode ''AnchorHTMLAttributes'' []),
           hasQuestionToken = False\<rparr>,
         PropertySignature \<lparr>propertyName = ''svg'',
           propertyType = Some (OtherNode ''SVGProps'' []), hasQuestionToken = False\<rparr>,
         PropertySignature \<lparr>propertyName = ''view'',
           propertyType = Some (OtherNode ''RefProps'' []), hasQuestionToken = False\<rparr>]\<rparr>"

definition domAttributesNormalized :: interface_declaration where
  "domAttributesNormalized =
     \<lparr>interfaceName = ''DOMAttributes'', typeParameters = [], extends = [],
      members = [PropertySignature \<lparr>propertyName = ''onclick'',
        propertyType = Some (OtherNode ''string'' []), hasQuestionToken = True\<rparr>]\<rparr>"

text \<open>The statements the run adds to \<open>global.JSX\<close> of the template.\<close>

definition generatedStatements :: "statement list" where
  "generatedStatements =
     [Declaration (InterfaceDeclaration intrinsicElementsExtracted),
      Declaration (InterfaceDeclaration domAttributesNormalized),
      Declaration (TypeAliasDeclaration
        \<lparr>aliasName = ''SVGProps'', aliasTypeParameters = [],
         aliasType = ''(SVGAttributes)''\<rparr>),
      Declaration (InterfaceDeclaration domAttributesNormalized),
      Declaration (TypeAliasDeclaration
        \<lparr>aliasName = ''RefProps'', aliasTypeParameters = [], aliasType = []\<rparr>)]"

definition generatedTypes :: source_file where
  "generatedTypes =
     [OtherStatement ''export = vhtml;'',
      ModuleDeclaration ''global'' [ModuleDeclaration ''JSX'' generatedStatements]]"

section \<open>Whole-word replacement is a map over the word runs\<close>

lemma dropWhile_starts_nonword:
  "dropWhile isWordChar s = [] \<or> \<not> isWordChar (hd (dropWhile isWordChar s))"
  by (metis hd_dropWhile)

lemma replaceWholeWord_Nil [simp]: "replaceWholeWord w r prev [] = []"
  by (simp add: replaceWholeWord.simps)

lemma replaceWholeWord_copy_run:
  "isWordChar p \<Longrightarrow> \<forall>x\<in>set xs. isWordChar x \<Longrightarrow>
   replaceWholeWord w r (Some p) (xs @ rest) = xs @ replaceWholeWord w r (Some (last (p # xs))) rest"
proof (induction xs arbitrary: p)
  case Nil
  then show ?case by simp
next
  case (Cons x xs)
  have nb: "\<not> matchWholeWordHere w (Some p) ((x # xs) @ rest)"
    using Cons.prems by (simp add: matchWholeWordHere_def wordBoundary_def)
  have "replaceWholeWord w r (Some p) ((x # xs) @ rest)
        = x # replaceWholeWord w r (Some x) (xs @ rest)"
    using nb by (subst replaceWholeWord.simps) simp
  also have "\<dots> = x # xs @ replaceWholeWord w r (Some (last (x # xs))) rest"
    using Cons.IH [of x] Cons.prems by simp
  finally show ?case by simp
qed

lemma whole_word_is_run:
  assumes "prefix w s" and "\<forall>x\<in>set w. isWordChar x"
    and "wordBoundary (Some (last w)) (drop (length w) s)" and "w \<noteq> []"
  shows "takeWhile isWordChar s = w \<and> dropWhile isWordChar s = drop (length w) s"
proof -
  from assms(1) obtain z where s: "s = w @ z" by (auto simp: prefix_def)
  have lw: "isWordChar (last w)" using assms(2,4) by simp
  have z: "z = [] \<or> \<not> isWordChar (hd z)"
    using assms(3) lw by (cases z) (auto simp: s wordBoundary_def)
  then have "takeWhile isWordChar z = []" "dropWhile isWordChar z = z"
    by (cases z; auto)+
  then show ?thesis using assms(2) by (simp add: s takeWhile_append2 dropWhile_append2)
qed

lemma replaceWholeWord_eq_mapWordRuns:
  assumes w: "w \<noteq> []" "\<forall>x\<in>set w. isWordChar x"
  shows "\<not> isWordCharOpt prev \<or> s = [] \<or> \<not> isWordChar (hd s) \<Longrightarrow>
         replaceWholeWord w r prev s = mapWordRuns (\<lambda>t. if t = w then r else t) s"
proof (induction "\<lambda>t. if t = w then r else t" s arbitrary: prev rule: mapWordRuns.induct)
  case 1
  then show ?case by simp
next
  case (2 c cs)
  let ?f = "\<lambda>t. if t = w then r else t"
  let ?run = "takeWhile isWordChar (c # cs)"
  let ?rest = "dropWhile isWordChar (c # cs)"
  show ?case
  proof (cases "isWordChar c")
    case False
    have hw: "isWordChar (hd w)" using w by (cases w) auto
    have nm: "\<not> matchWholeWordHere w prev (c # cs)"
      using False hw w(1) by (cases w) (auto simp: matchWholeWordHere_def)
    have "replaceWholeWord w r prev (c # cs) = c # replaceWholeWord w r (Some c) cs"
      using nm by (subst replaceWholeWord.simps) simp
    also have "\<dots> = c # mapWordRuns ?f cs"
      using "2.hyps"(2) [OF False, of "Some c"] False by simp
    finally show ?thesis using False by (simp add: mapWordRuns.simps(2))
  next
    case True
    then have prev: "\<not> isWordCharOpt prev" using "2.prems" by simp
    have split: "c # cs = ?run @ ?rest" by simp
    have rest: "?rest = [] \<or> \<not> isWordChar (hd ?rest)"
      by (rule dropWhile_starts_nonword)
    have IH: "replaceWholeWord w r p ?rest = mapWordRuns ?f ?rest" for p
      using "2.hyps"(1) [OF True, of p] rest by blast
    show ?thesis
    proof (cases "matchWholeWordHere w prev (c # cs)")
      case m: True
      then have "prefix w (c # cs)" "wordBoundary (Some (last w)) (drop (length w) (c # cs))"
        using w(1) by (auto simp: matchWholeWordHere_def)
      from whole_word_is_run [OF this(1) w(2) this(2) w(1)]
      have run: "?run = w" and dr: "?rest = drop (length w) (c # cs)" by auto
      have "replaceWholeWord w r prev (c # cs)
            = r @ replaceWholeWord w r (Some (last w)) (drop (length w) (c # cs))"
        using m w(1) by (subst replaceWholeWord.simps) simp
      also have "\<dots> = r @ mapWordRuns ?f ?rest"
        using IH [of "Some (last w)"] dr by simp
      finally show ?thesis using True run by (simp add: mapWordRuns.simps(2))
    next
      case nm: False
      have ne: "?run \<noteq> w"
      proof
        assume eq: "?run = w"
        have "prefix w (c # cs)" by (metis eq split prefixI)
        moreover have "drop (length w) (c # cs) = ?rest"
          by (metis eq split append_eq_conv_conj)
        moreover have "wordBoundary (Some (last w)) ?rest"
          using rest w by (cases ?rest) (auto simp: wordBoundary_def)
        moreover have "wordBoundary prev (c # cs)"
          using prev True by (simp add: wordBoundary_def)
        ultimately show False using nm w(1) by (simp add: matchWholeWordHere_def)
      qed
      have tl: "cs = tl ?run @ ?rest" using True by simp
      have "replaceWholeWord w r prev (c # cs) = c # replaceWholeWord w r (Some c) cs"
        using nm by (subst replaceWholeWord.simps) simp
      also have "replaceWholeWord w r (Some c) cs
                 = replaceWholeWord w r (Some c) (tl ?run @ ?rest)"
        using tl by simp
      also have "\<dots> = tl ?run @ replaceWholeWord w r (Some (last (c # tl ?run))) ?rest"
        using True by (intro replaceWholeWord_copy_run) (auto dest: set_takeWhileD)
      also have "\<dots> = tl ?run @ mapWordRuns ?f ?rest"
        using IH by simp
      finally show ?thesis using True ne by (simp add: mapWordRuns.simps(2))
    qed
  qed
qed

lemma takeWhile_all: "\<forall>x\<in>set xs. P x \<Longrightarrow> takeWhile P xs = xs"
  by simp

lemma dropWhile_all: "\<forall>x\<in>set xs. P x \<Longrightarrow> dropWhile P xs = []"
  by simp

lemma mapWordRuns_append:
  "b = [] \<or> \<not> isWordChar (hd b) \<Longrightarrow>
   mapWordRuns g (a @ b) = mapWordRuns g a @ mapWordRuns g b"
proof (induction g a rule: mapWordRuns.induct)
  case (1 f)
  then show ?case by simp
next
  case (2 f c cs)
  show ?case
  proof (cases "isWordChar c")
    case False
    then show ?thesis using 2 by (simp add: mapWordRuns.simps(2))
  next
    case True
    have tb: "takeWhile isWordChar b = []" "dropWhile isWordChar b = b"
      using "2.prems" by (cases b; auto)+
    show ?thesis
    proof (cases "\<forall>x\<in>set cs. isWordChar x")
      case all: True
      show ?thesis using True all tb
        by (simp add: mapWordRuns.simps(2) takeWhile_append2 dropWhile_append2 takeWhile_all dropWhile_all)
    next
      case False
      then obtain x where x: "x \<in> set cs" "\<not> isWordChar x" by blast
      then have "takeWhile isWordChar (c # cs @ b) = takeWhile isWordChar (c # cs)"
        "dropWhile isWordChar (c # cs @ b) = dropWhile isWordChar (c # cs) @ b"
        using True by (simp_all add: takeWhile_append1 dropWhile_append1)
      then show ?thesis using True "2.IH"(1) "2.prems" by (simp add: mapWordRuns.simps(2))
    qed
  qed
qed

lemma mapWordRuns_starts_nonword:
  "s = [] \<or> \<not> isWordChar (hd s) \<Longrightarrow>
   mapWordRuns f s = [] \<or> \<not> isWordChar (hd (mapWordRuns f s))"
  by (cases s) (auto simp: mapWordRuns.simps(2))

lemma mapWordRuns_comp:
  "mapWordRuns g (mapWordRuns f s) = mapWordRuns (\<lambda>t. mapWordRuns g (f t)) s"
proof (induction f s rule: mapWordRuns.induct)
  case (1 f)
  then show ?case by simp
next
  case (2 f c cs)
  show ?case
  proof (cases "isWordChar c")
    case False
    then show ?thesis using 2 by (simp add: mapWordRuns.simps(2))
  next
    case True
    have "mapWordRuns f (dropWhile isWordChar (c # cs)) = [] \<or>
          \<not> isWordChar (hd (mapWordRuns f (dropWhile isWordChar (c # cs))))"
      by (rule mapWordRuns_starts_nonword) (rule dropWhile_starts_nonword)
    then show ?thesis
      using True "2.IH"(1)
      by (simp add: mapWordRuns.simps(2) [of _ c cs] mapWordRuns_append del: dropWhile.simps takeWhile.simps)
  qed
qed

lemma mapWordRuns_cong:
  "(\<And>t. t \<noteq> [] \<Longrightarrow> \<forall>x\<in>set t. isWordChar x \<Longrightarrow> f t = g t) \<Longrightarrow>
   mapWordRuns f s = mapWordRuns g s"
proof (induction f s rule: mapWordRuns.induct)
  case (1 f)
  then show ?case by simp
next
  case (2 f c cs)
  show ?case
  proof (cases "isWordChar c")
    case False
    then show ?thesis using 2 by (simp add: mapWordRuns.simps(2))
  next
    case True
    have "f (takeWhile isWordChar (c # cs)) = g (takeWhile isWordChar (c # cs))"
      using True by (intro "2.prems") (auto dest: set_takeWhileD)
    then show ?thesis
      using True "2.IH"(1) "2.prems"
      by (simp add: mapWordRuns.simps(2) [of _ c cs] del: dropWhile.simps takeWhile.simps)
  qed
qed

lemma mapWordRuns_run:
  "t \<noteq> [] \<Longrightarrow> \<forall>x\<in>set t. isWordChar x \<Longrightarrow> mapWordRuns f t = f t"
  by (cases t) (auto simp: mapWordRuns.simps(2) takeWhile_all dropWhile_all)

lemma isWordChar_canonicalize [simp]: "isWordChar (canonicalize c) = isWordChar c"
  by (auto simp: isWordChar_def canonicalize_def Let_def)

lemma canonicalize_eq_word:
  "canonicalize p = canonicalize c \<Longrightarrow> isWordChar p \<Longrightarrow> isWordChar c"
  by (metis isWordChar_canonicalize)

lemma matchHereIgnoreCase_cut:
  "\<forall>p\<in>set pat. isWordChar p \<Longrightarrow> \<not> isWordChar c \<Longrightarrow>
   matchHereIgnoreCase pat (u @ c # b) = matchHereIgnoreCase pat u"
proof (induction pat arbitrary: u)
  case Nil
  then show ?case by simp
next
  case (Cons p ps)
  then show ?case
    by (cases u) (auto dest: canonicalize_eq_word)
qed

lemma regexTestIgnoreCase_Nil: "pat \<noteq> [] \<Longrightarrow> \<not> regexTestIgnoreCase pat []"
  by (cases pat) auto

lemma regexTestIgnoreCase_nonword:
  "pat \<noteq> [] \<Longrightarrow> \<forall>p\<in>set pat. isWordChar p \<Longrightarrow> \<not> isWordChar c \<Longrightarrow>
   regexTestIgnoreCase pat (c # s) = regexTestIgnoreCase pat s"
  by (cases pat) (auto dest: canonicalize_eq_word)

lemma regexTestIgnoreCase_append:
  assumes "pat \<noteq> []" "\<forall>p\<in>set pat. isWordChar p" "b = [] \<or> \<not> isWordChar (hd b)"
  shows "regexTestIgnoreCase pat (a @ b) =
         (regexTestIgnoreCase pat a \<or> regexTestIgnoreCase pat b)"
proof (induction a)
  case Nil
  then show ?case using assms(1) by (cases pat) auto
next
  case (Cons x a)
  have "matchHereIgnoreCase pat ((x # a) @ b) = matchHereIgnoreCase pat (x # a)"
  proof (cases b)
    case Nil
    then show ?thesis by simp
  next
    case (Cons c b')
    then show ?thesis
      using assms(2,3) matchHereIgnoreCase_cut [of pat c "x # a" b'] by simp
  qed
  then show ?case using Cons.IH by auto
qed

lemma regexTestIgnoreCase_mapWordRuns:
  assumes "pat \<noteq> []" "\<forall>p\<in>set pat. isWordChar p"
    and "\<And>t. t \<noteq> [] \<Longrightarrow> \<forall>x\<in>set t. isWordChar x \<Longrightarrow>
           regexTestIgnoreCase pat (f t) = regexTestIgnoreCase pat t"
  shows "regexTestIgnoreCase pat (mapWordRuns f s) = regexTestIgnoreCase pat s"
  using assms(3)
proof (induction f s rule: mapWordRuns.induct)
  case (1 f)
  then show ?case by simp
next
  case (2 f c cs)
  show ?case
  proof (cases "isWordChar c")
    case False
    have "regexTestIgnoreCase pat (mapWordRuns f (c # cs))
          = regexTestIgnoreCase pat (c # mapWordRuns f cs)"
      using False by (simp only: mapWordRuns.simps(2) if_False)
    also have "\<dots> = regexTestIgnoreCase pat (mapWordRuns f cs)"
      using False by (rule regexTestIgnoreCase_nonword [OF assms(1,2)])
    also have "\<dots> = regexTestIgnoreCase pat cs"
      using False "2.prems" by (rule "2.IH"(2))
    also have "\<dots> = regexTestIgnoreCase pat (c # cs)"
      using False by (rule regexTestIgnoreCase_nonword [OF assms(1,2), symmetric])
    finally show ?thesis .
  next
    case True
    let ?run = "takeWhile isWordChar (c # cs)"
    let ?rest = "dropWhile isWordChar (c # cs)"
    have rest: "?rest = [] \<or> \<not> isWordChar (hd ?rest)"
      by (rule dropWhile_starts_nonword)
    have rest': "mapWordRuns f ?rest = [] \<or> \<not> isWordChar (hd (mapWordRuns f ?rest))"
      by (rule mapWordRuns_starts_nonword) (rule rest)
    have run: "regexTestIgnoreCase pat (f ?run) = regexTestIgnoreCase pat ?run"
      using True by (intro "2.prems") (auto dest: set_takeWhileD)
    have ih: "regexTestIgnoreCase pat (mapWordRuns f ?rest) = regexTestIgnoreCase pat ?rest"
      using True "2.prems" by (rule "2.IH"(1))
    have "regexTestIgnoreCase pat (mapWordRuns f (c # cs))
          = regexTestIgnoreCase pat (f ?run @ mapWordRuns f ?rest)"
      using True by (simp add: mapWordRuns.simps(2))
    also have "\<dots> = (regexTestIgnoreCase pat ?run \<or> regexTestIgnoreCase pat ?rest)"
      by (simp only: regexTestIgnoreCase_append [OF assms(1,2) rest'] run ih)
    also have "\<dots> = regexTestIgnoreCase pat (?run @ ?rest)"
      by (simp only: regexTestIgnoreCase_append [OF assms(1,2) rest])
    also have "?run @ ?rest = c # cs"
      by (rule takeWhile_dropWhile_id)
    finally show ?thesis .
  qed
qed

lemma mapWordRuns_all_word:
  assumes "\<forall>x\<in>set (mapWordRuns f s). isWordChar x"
  shows "s = [] \<or> ((\<forall>x\<in>set s. isWordChar x) \<and> mapWordRuns f s = f s)"
proof (cases s)
  case Nil
  then show ?thesis by simp
next
  case (Cons c cs)
  have c: "isWordChar c"
  proof (rule ccontr)
    assume "\<not> isWordChar c"
    then have "mapWordRuns f (c # cs) = c # mapWordRuns f cs"
      by (simp only: mapWordRuns.simps(2) if_False)
    then have "c \<in> set (mapWordRuns f s)" unfolding Cons by simp
    then show False using assms \<open>\<not> isWordChar c\<close> by blast
  qed
  let ?run = "takeWhile isWordChar (c # cs)"
  let ?rest = "dropWhile isWordChar (c # cs)"
  have unfold: "mapWordRuns f (c # cs) = f ?run @ mapWordRuns f ?rest"
    using c by (simp only: mapWordRuns.simps(2) if_True)
  have "?rest = []"
  proof (rule ccontr)
    assume ne: "?rest \<noteq> []"
    then obtain d ds where d: "?rest = d # ds" by (cases ?rest) blast+
    have nd: "\<not> isWordChar d" using dropWhile_starts_nonword [of "c # cs"] unfolding d by simp
    have "mapWordRuns f (d # ds) = d # mapWordRuns f ds"
      using nd by (simp only: mapWordRuns.simps(2) if_False)
    then have "d \<in> set (mapWordRuns f (c # cs))"
      unfolding unfold d by simp
    then show False using assms nd unfolding Cons by blast
  qed
  then have all: "\<forall>x\<in>set (c # cs). isWordChar x"
    by (simp only: dropWhile_eq_Nil_conv)
  then show ?thesis unfolding Cons using mapWordRuns_run [of "c # cs" f] by blast
qed

lemma replaceKnownWords_CSSProperties: "replaceKnownWords ''CSSProperties'' = ''string''"
  by (simp add: replaceKnownWords_def)

lemma replaceKnownWords_Booleanish:
  "replaceKnownWords ''Booleanish'' = ''(boolean | 'true' | 'false')''"
  by (simp add: replaceKnownWords_def)

lemma replaceKnownWords_other:
  "t \<noteq> ''CSSProperties'' \<Longrightarrow> t \<noteq> ''Booleanish'' \<Longrightarrow> replaceKnownWords t = t"
  by (simp add: replaceKnownWords_def)

lemma replaceKnownWords_cases:
  obtains "t = ''CSSProperties''" "replaceKnownWords t = ''string''"
  | "t = ''Booleanish''" "replaceKnownWords t = ''(boolean | 'true' | 'false')''"
  | "t \<noteq> ''CSSProperties''" "t \<noteq> ''Booleanish''" "replaceKnownWords t = t"
  using replaceKnownWords_CSSProperties replaceKnownWords_Booleanish replaceKnownWords_other
  by metis

lemma no_EventHandler_in_words:
  "\<not> regexTestIgnoreCase ''EventHandler'' ''string''"
  "\<not> regexTestIgnoreCase ''EventHandler'' ''(boolean | 'true' | 'false')''"
  "\<not> regexTestIgnoreCase ''EventHandler'' ''CSSProperties''"
  "\<not> regexTestIgnoreCase ''EventHandler'' ''Booleanish''"
  by code_simp+

lemma regexTest_replaceKnownWords:
  "regexTestIgnoreCase ''EventHandler'' (replaceKnownWords t) =
   regexTestIgnoreCase ''EventHandler'' t"
  by (cases t rule: replaceKnownWords_cases) (simp_all only: no_EventHandler_in_words)

lemma mapWordRuns_replaceKnownWords_fix:
  assumes "t \<noteq> []" "\<forall>x\<in>set t. isWordChar x"
  shows "mapWordRuns replaceKnownWords (replaceKnownWords t) = replaceKnownWords t"
proof -
  have a: "mapWordRuns replaceKnownWords ''string'' = ''string''"
    by code_simp
  have b: "mapWordRuns replaceKnownWords ''(boolean | 'true' | 'false')''
           = ''(boolean | 'true' | 'false')''"
    by code_simp
  have c: "mapWordRuns replaceKnownWords t = replaceKnownWords t"
    using assms by (rule mapWordRuns_run)
  show ?thesis
  proof (cases t rule: replaceKnownWords_cases)
    case 1
    then show ?thesis using \<open>mapWordRuns replaceKnownWords ''string'' = ''string''\<close>
      by (simp only:)
  next
    case 2
    show ?thesis unfolding 2(2) by (rule b)
  next
    case 3
    show ?thesis unfolding 3(3) using c 3(3) by (simp only:)
  qed
qed

lemma mapWordRuns_replaceKnownWords_idem:
  "mapWordRuns replaceKnownWords (mapWordRuns replaceKnownWords s)
   = mapWordRuns replaceKnownWords s"
  unfolding mapWordRuns_comp
  by (rule mapWordRuns_cong) (rule mapWordRuns_replaceKnownWords_fix)

lemma replace_words_eq_mapWordRuns:
  "replaceWholeWord ''Booleanish'' ''(boolean | 'true' | 'false')'' None
     (replaceWholeWord ''CSSProperties'' ''string'' None s)
   = mapWordRuns replaceKnownWords s"
proof -
  let ?fC = "\<lambda>t. if t = ''CSSProperties'' then ''string'' else t"
  let ?fB = "\<lambda>t. if t = ''Booleanish'' then ''(boolean | 'true' | 'false')'' else t"
  have C: "replaceWholeWord ''CSSProperties'' ''string'' None s = mapWordRuns ?fC s" for s
    by (rule replaceWholeWord_eq_mapWordRuns) (simp_all add: isWordChar_def)
  have B: "replaceWholeWord ''Booleanish'' ''(boolean | 'true' | 'false')'' None s
           = mapWordRuns ?fB s" for s
    by (rule replaceWholeWord_eq_mapWordRuns) (simp_all add: isWordChar_def)
  have "mapWordRuns ?fB (mapWordRuns ?fC s) = mapWordRuns (\<lambda>t. mapWordRuns ?fB (?fC t)) s"
    by (rule mapWordRuns_comp)
  also have "\<dots> = mapWordRuns replaceKnownWords s"
  proof (rule mapWordRuns_cong)
    fix t :: string
    assume t: "t \<noteq> []" "\<forall>x\<in>set t. isWordChar x"
    have str: "mapWordRuns ?fB ''string'' = ''string''"
      by code_simp
    have run: "mapWordRuns ?fB t = ?fB t"
      using t by (rule mapWordRuns_run)
    show "mapWordRuns ?fB (?fC t) = replaceKnownWords t"
    proof (cases t rule: replaceKnownWords_cases)
      case 1
      then show ?thesis using str by simp
    next
      case 2
      have "?fC t = t" unfolding 2(1) by simp
      then show ?thesis using run 2 by simp
    next
      case 3
      then show ?thesis using run by simp
    qed
  qed
  finally show ?thesis by (simp only: C B)
qed

section \<open>The stages of the generator\<close>

subsection \<open>The property loop\<close>

text \<open>Lookup, removal and rewriting of a node whose identity occurs once.\<close>

lemma map_of_mid:
  "distinct (map fst (xs @ (i, v) # ys)) \<Longrightarrow> map_of (xs @ (i, v) # ys) i = Some v"
  by (rule map_of_is_SomeI) auto

lemma removeNode_mid:
  "distinct (map fst (xs @ (i, v) # ys)) \<Longrightarrow> removeNode i (xs @ (i, v) # ys) = xs @ ys"
proof -
  assume d: "distinct (map fst (xs @ (i, v) # ys))"
  have "\<forall>x\<in>set (xs @ ys). fst x \<noteq> i" using d by (auto simp: image_iff)
  then have "filter (\<lambda>(j, m). j \<noteq> i) (xs @ ys) = xs @ ys"
    by (intro filter_True) force
  then show ?thesis by (simp add: removeNode_def)
qed

lemma setNode_mid:
  "distinct (map fst (xs @ (i, v) # ys)) \<Longrightarrow>
   setNode i m (xs @ (i, v) # ys) = xs @ (i, m) # ys"
proof -
  assume d: "distinct (map fst (xs @ (i, v) # ys))"
  have "\<forall>x\<in>set (xs @ ys). fst x \<noteq> i" using d by (auto simp: image_iff)
  then have "map (\<lambda>(j, x). if j = i then (j, m) else (j, x)) zs = zs"
    if "set zs \<subseteq> set (xs @ ys)" for zs
    using that by (intro map_idI) force
  from this [of xs] this [of ys] show ?thesis by (simp add: setNode_def)
qed

lemma fold_max_ge: "x \<in> set xs \<Longrightarrow> x \<le> fold max xs (a::nat)"
proof (induction xs arbitrary: a)
  case Nil
  then show ?case by simp
next
  case (Cons y ys)
  have mono: "a \<le> fold max ys a" for a :: nat and ys
    by (induction ys arbitrary: a) (auto intro: order_trans [OF max.cobounded2])
  show ?case
  proof (cases "x = y")
    case True
    then show ?thesis using mono [of "max y a" ys] by simp
  next
    case False
    then show ?thesis using Cons by simp
  qed
qed

lemma freshNode_notin: "freshNode ns \<notin> fst ` set ns"
proof
  assume "freshNode ns \<in> fst ` set ns"
  then have "freshNode ns \<in> set (map fst ns)" by simp
  from fold_max_ge [OF this, of 0] show False by (simp add: freshNode_def)
qed

lemma distinct_addProperty:
  "distinct (map fst ns) \<Longrightarrow> distinct (map fst (addProperty p ns))"
  using freshNode_notin [of ns] by (simp add: addProperty_def)

text \<open>The three ways through the body of the loop.\<close>

lemma processProperty_unsupported:
  "map_of ns i = Some (PropertySignature p) \<Longrightarrow> isUnsupportedProperty (propertyName p) \<Longrightarrow>
   processProperty i ns = Inr (removeNode i ns)"
  by (simp add: processProperty_def)

lemma processProperty_untyped:
  "map_of ns i = Some (PropertySignature p) \<Longrightarrow> \<not> isUnsupportedProperty (propertyName p) \<Longrightarrow>
   propertyType p = None \<Longrightarrow>
   processProperty i ns = Inl (AssertionError ''Unexpected structure.type type: undefined'')"
  by (simp add: processProperty_def)

lemma processProperty_typed:
  "map_of ns i = Some (PropertySignature p) \<Longrightarrow> \<not> isUnsupportedProperty (propertyName p) \<Longrightarrow>
   propertyType p = Some t \<Longrightarrow>
   processProperty i ns =
     Inr (if propertyName p = ''className''
          then addProperty (normalizeStructure p (getText t)\<lparr>propertyName := ''class''\<rparr>)
                 (setNode i (PropertySignature (normalizeStructure p (getText t))) ns)
          else if propertyName p = ''htmlFor''
          then addProperty (normalizeStructure p (getText t)\<lparr>propertyName := ''for''\<rparr>)
                 (setNode i (PropertySignature (normalizeStructure p (getText t))) ns)
          else setNode i (PropertySignature (normalizeStructure p (getText t))) ns)"
  by (simp add: processProperty_def Let_def)

lemma processProperty_mid:
  assumes d: "distinct (map fst (xs @ (i, PropertySignature p) # ys))"
    and u: "\<not> isUnsupportedProperty (propertyName p)" and t: "propertyType p = Some t"
  shows "\<exists>dups. processProperty i (xs @ (i, PropertySignature p) # ys) =
           Inr (xs @ (i, PropertySignature (normalizeStructure p (getText t))) # ys @ dups) \<and>
         map snd dups = duplicateMember (PropertySignature p) \<and>
         distinct (map fst (xs @ (i, PropertySignature (normalizeStructure p (getText t))) # ys @ dups))"
proof -
  let ?s = "normalizeStructure p (getText t)"
  let ?ns = "xs @ (i, PropertySignature p) # ys"
  let ?ns' = "xs @ (i, PropertySignature ?s) # ys"
  have look: "map_of ?ns i = Some (PropertySignature p)" using d by (rule map_of_mid)
  have set: "setNode i (PropertySignature ?s) ?ns = ?ns'" using d by (rule setNode_mid)
  have d': "distinct (map fst ?ns')" using d by simp
  have add: "addProperty q ?ns' = ?ns' @ [(freshNode ?ns', PropertySignature q)]" for q
    by (simp add: addProperty_def)
  have dadd: "distinct (map fst (?ns' @ [(freshNode ?ns', PropertySignature q)]))" for q
    using distinct_addProperty [OF d', of q] by (simp only: add)
  note step = processProperty_typed [OF look u t, unfolded set add]
  consider (c) "propertyName p = ''className''" | (h) "propertyName p = ''htmlFor''"
    | (o) "propertyName p \<noteq> ''className''" "propertyName p \<noteq> ''htmlFor''" by blast
  then show ?thesis
  proof cases
    case c
    let ?dups = "[(freshNode ?ns', PropertySignature (?s\<lparr>propertyName := ''class''\<rparr>))]"
    have "processProperty i ?ns = Inr (?ns' @ ?dups)" using step c by simp
    moreover have "map snd ?dups = duplicateMember (PropertySignature p)" using u t c by simp
    moreover have "distinct (map fst (?ns' @ ?dups))" by (rule dadd)
    ultimately show ?thesis by (intro exI [of _ ?dups]) simp
  next
    case h
    let ?dups = "[(freshNode ?ns', PropertySignature (?s\<lparr>propertyName := ''for''\<rparr>))]"
    have "processProperty i ?ns = Inr (?ns' @ ?dups)" using step h by simp
    moreover have "map snd ?dups = duplicateMember (PropertySignature p)" using u t h by simp
    moreover have "distinct (map fst (?ns' @ ?dups))" by (rule dadd)
    ultimately show ?thesis by (intro exI [of _ ?dups]) simp
  next
    case o
    have "processProperty i ?ns = Inr (?ns' @ [])" using step o by simp
    moreover have "map snd [] = duplicateMember (PropertySignature p)" using u t o by simp
    moreover have "distinct (map fst (?ns' @ []))" using d' by simp
    ultimately show ?thesis by (intro exI [of _ "[]"]) simp
  qed
qed

text \<open>
  The state of the loop: the members already visited, those still to visit, and
  the copies appended so far.
\<close>

lemma forEachProperty_invariant:
  "distinct (map fst (done @ todo @ app)) \<Longrightarrow>
   map_sum id (map snd) (forEachProperty (getPropertyNodes todo) (done @ todo @ app)) =
     (if \<exists>n\<in>set todo. lacksType (snd n) then Inl typeAssertion
      else Inr (map snd done @ concat (map (\<lambda>n. keptMember (snd n)) todo) @ map snd app @
                concat (map (\<lambda>n. duplicateMember (snd n)) todo)))"
proof (induction todo arbitrary: "done" app)
  case Nil
  then show ?case by simp
next
  case (Cons n todo)
  obtain i m where n: "n = (i, m)" by (cases n)
  show ?case
  proof (cases m)
    case (OtherMember x)
    have "distinct (map fst ((done @ [n]) @ todo @ app))" using Cons.prems by simp
    from Cons.IH [OF this] show ?thesis by (simp add: n OtherMember)
  next
    case (PropertySignature p)
    let ?ns = "done @ (i, PropertySignature p) # todo @ app"
    have d: "distinct (map fst (done @ (i, PropertySignature p) # (todo @ app)))"
      using Cons.prems by (simp add: n PropertySignature)
    have look: "map_of ?ns i = Some (PropertySignature p)" using d by (rule map_of_mid)
    have unfold: "forEachProperty (getPropertyNodes (n # todo)) (done @ (n # todo) @ app)
                 = (case processProperty i ?ns of Inl e \<Rightarrow> Inl e
                    | Inr ns' \<Rightarrow> forEachProperty (getPropertyNodes todo) ns')"
      by (simp add: n PropertySignature)
    show ?thesis
    proof (cases "isUnsupportedProperty (propertyName p)")
      case True
      have "processProperty i ?ns = Inr (done @ todo @ app)"
        using processProperty_unsupported [OF look True] removeNode_mid [OF d] by simp
      moreover have "distinct (map fst (done @ todo @ app))" using d by simp
      ultimately show ?thesis
        unfolding unfold using Cons.IH [of "done" app] True by (simp add: n PropertySignature)
    next
      case False
      show ?thesis
      proof (cases "propertyType p")
        case None
        have "processProperty i ?ns = Inl typeAssertion"
          using processProperty_untyped [OF look False None] by (simp add: typeAssertion_def)
        then show ?thesis
          unfolding unfold using False None by (simp add: n PropertySignature)
      next
        case (Some t)
        from processProperty_mid [OF d False Some] obtain dups where
          step: "processProperty i ?ns =
                 Inr (done @ (i, PropertySignature (normalizeStructure p (getText t))) # (todo @ app) @ dups)"
          and dups: "map snd dups = duplicateMember (PropertySignature p)"
          and d': "distinct (map fst (done @ (i, PropertySignature (normalizeStructure p (getText t))) # (todo @ app) @ dups))"
          by blast
        let ?done = "done @ [(i, PropertySignature (normalizeStructure p (getText t)))]"
        have d'': "distinct (map fst (?done @ todo @ (app @ dups)))" using d' by simp
        have "forEachProperty (getPropertyNodes (n # todo)) (done @ (n # todo) @ app)
              = forEachProperty (getPropertyNodes todo) (?done @ todo @ (app @ dups))"
          unfolding unfold step by simp
        then show ?thesis
          using Cons.IH [OF d''] False Some dups by (simp add: n PropertySignature)
      qed
    qed
  qed
qed

lemma numberMembers_snd: "map snd (numberMembers ms) = ms"
  by (simp add: numberMembers_def)

lemma numberMembers_distinct: "distinct (map fst (numberMembers ms))"
  by (simp add: numberMembers_def)

lemma updateProperties_eq:
  "updateProperties ms =
     (if \<exists>m\<in>set ms. lacksType m then Inl typeAssertion
      else Inr (concat (map keptMember ms) @ concat (map duplicateMember ms)))"
proof -
  let ?ns = "numberMembers ms"
  have "distinct (map fst ([] @ ?ns @ []))" by (simp add: numberMembers_distinct)
  from forEachProperty_invariant [OF this]
  have inv: "map_sum id (map snd) (forEachProperty (getPropertyNodes ?ns) ?ns) =
     (if \<exists>n\<in>set ?ns. lacksType (snd n) then Inl typeAssertion
      else Inr (concat (map (\<lambda>n. keptMember (snd n)) ?ns) @
                concat (map (\<lambda>n. duplicateMember (snd n)) ?ns)))"
    by simp
  have "(\<exists>n\<in>set ?ns. lacksType (snd n)) = (\<exists>m\<in>set (map snd ?ns). lacksType m)"
    by simp
  then have ex: "(\<exists>n\<in>set ?ns. lacksType (snd n)) = (\<exists>m\<in>set ms. lacksType m)"
    by (simp only: numberMembers_snd)
  have "map (\<lambda>n. keptMember (snd n)) ?ns = map keptMember (map snd ?ns)"
    by (simp add: comp_def)
  then have k: "map (\<lambda>n. keptMember (snd n)) ?ns = map keptMember ms"
    by (simp only: numberMembers_snd)
  have "map (\<lambda>n. duplicateMember (snd n)) ?ns = map duplicateMember (map snd ?ns)"
    by (simp add: comp_def)
  then have dd: "map (\<lambda>n. duplicateMember (snd n)) ?ns = map duplicateMember ms"
    by (simp only: numberMembers_snd)
  have "updateProperties ms = map_sum id (map snd) (forEachProperty (getPropertyNodes ?ns) ?ns)"
    by (simp add: updateProperties_def Let_def split: sum.splits)
  also note inv
  finally show ?thesis by (simp only: ex k dd)
qed

subsection \<open>The extends loop\<close>

lemma updateExtends_invariant:
  "updateExtends iname snapshot (snapshot @ acc) =
     (case find (\<lambda>e. expression e \<noteq> ''ClassAttributes'' \<and> \<not> isExpectedParent (expression e)) snapshot of
        Some bad \<Rightarrow> Inl (AssertionError
          (''Interface '' @ iname @ '' has unexpected parent interface: '' @ expression bad))
      | None \<Rightarrow> Inr (acc @ map eraseTypeArguments
                      (filter (\<lambda>e. expression e \<noteq> ''ClassAttributes'') snapshot)))"
proof (induction snapshot arbitrary: acc)
  case Nil
  then show ?case by simp
next
  case (Cons e snapshot)
  let ?bad = "\<lambda>e. expression e \<noteq> ''ClassAttributes'' \<and> \<not> isExpectedParent (expression e)"
  let ?keep = "\<lambda>e. expression e \<noteq> ''ClassAttributes''"
  consider (c) "expression e = ''ClassAttributes''"
    | (a) "expression e \<noteq> ''ClassAttributes''" "isExpectedParent (expression e)"
    | (b) "expression e \<noteq> ''ClassAttributes''" "\<not> isExpectedParent (expression e)"
    by blast
  then show ?case
  proof cases
    case c
    have u: "updateExtends iname (e # snapshot) ((e # snapshot) @ acc)
             = updateExtends iname snapshot (snapshot @ acc)"
      using c by (simp add: Let_def)
    have f: "find ?bad (e # snapshot) = find ?bad snapshot"
      "filter ?keep (e # snapshot) = filter ?keep snapshot"
      using c by simp_all
    show ?thesis unfolding u f by (rule Cons.IH)
  next
    case a
    have u: "updateExtends iname (e # snapshot) ((e # snapshot) @ acc)
          = updateExtends iname snapshot (snapshot @ (acc @ [eraseTypeArguments e]))"
      using a by (simp add: isExpectedParent_def eraseTypeArguments_def Let_def)
    have f: "find ?bad (e # snapshot) = find ?bad snapshot"
      "filter ?keep (e # snapshot) = e # filter ?keep snapshot"
      using a by simp_all
    show ?thesis unfolding u f Cons.IH [of "acc @ [eraseTypeArguments e]"]
      by (simp split: option.splits)
  next
    case b
    have u: "updateExtends iname (e # snapshot) ((e # snapshot) @ acc)
          = Inl (AssertionError
                  (''Interface '' @ iname @ '' has unexpected parent interface: '' @ expression e))"
      using b by (simp add: isExpectedParent_def Let_def)
    have f: "find ?bad (e # snapshot) = Some e"
      using b by simp
    show ?thesis unfolding u f by simp
  qed
qed

subsection \<open>The walk over the descendants\<close>

lemma firstSome_append:
  "firstSome cb (xs @ ys) = (case firstSome cb xs of Some r \<Rightarrow> Some r | None \<Rightarrow> firstSome cb ys)"
  by (induction xs) (auto split: option.splits)

lemma descendants_children:
  "descendants n = concat (map (\<lambda>c. c # descendants c) (getChildren n))"
  by (cases n) simp_all

lemma forEachDescendant_firstSome:
  "forEachDescendant cb n = firstSome cb (descendants n)"
  "forEachNodeIn cb ns = firstSome cb (concat (map (\<lambda>c. c # descendants c) ns))"
proof (induction cb n and cb ns rule: forEachDescendant_forEachNodeIn.induct)
  case (1 cb n)
  then show ?case
    by (simp only: forEachDescendant.simps descendants_children [of n])
next
  case (2 cb)
  then show ?case by simp
next
  case (3 cb c cs)
  show ?case
  proof (cases "cb c")
    case (Some r)
    then show ?thesis by simp
  next
    case None
    note n = this
    show ?thesis
    proof (cases "forEachDescendant cb c")
      case None
      then show ?thesis using n 3 by (simp add: firstSome_append)
    next
      case (Some r)
      then show ?thesis using n 3 by (simp add: firstSome_append)
    qed
  qed
qed

subsection \<open>The test for \<open>EventHandler\<close> finds a substring\<close>

lemma matchHereIgnoreCase_iff:
  "matchHereIgnoreCase pat s =
   (\<exists>m. prefix m s \<and> map canonicalize m = map canonicalize pat)"
proof (induction pat s rule: matchHereIgnoreCase.induct)
  case (1 s)
  then show ?case by auto
next
  case (2 p ps)
  then show ?case by auto
next
  case (3 p ps c cs)
  show ?case
  proof
    assume "matchHereIgnoreCase (p # ps) (c # cs)"
    then obtain m where "canonicalize p = canonicalize c" "prefix m cs"
      "map canonicalize m = map canonicalize ps" using 3 by auto
    then have "prefix (c # m) (c # cs) \<and> map canonicalize (c # m) = map canonicalize (p # ps)"
      by simp
    then show "\<exists>m. prefix m (c # cs) \<and> map canonicalize m = map canonicalize (p # ps)"
      by blast
  next
    assume "\<exists>m. prefix m (c # cs) \<and> map canonicalize m = map canonicalize (p # ps)"
    then obtain m where m: "prefix m (c # cs)" "map canonicalize m = map canonicalize (p # ps)"
      by blast
    then obtain x m' where m': "m = x # m'" by (cases m) auto
    then have "x = c" "prefix m' cs" "canonicalize x = canonicalize p"
      "map canonicalize m' = map canonicalize ps" using m by auto
    then show "matchHereIgnoreCase (p # ps) (c # cs)" using 3 by auto
  qed
qed

lemma regexTestIgnoreCase_iff:
  "regexTestIgnoreCase pat s =
   (\<exists>m. sublist m s \<and> map canonicalize m = map canonicalize pat)"
proof (induction s)
  case Nil
  then show ?case by (auto simp: matchHereIgnoreCase_iff)
next
  case (Cons c cs)
  have "regexTestIgnoreCase pat (c # cs) =
        ((\<exists>m. prefix m (c # cs) \<and> map canonicalize m = map canonicalize pat) \<or>
         (\<exists>m. sublist m cs \<and> map canonicalize m = map canonicalize pat))"
    using Cons by (simp only: regexTestIgnoreCase.simps matchHereIgnoreCase_iff)
  also have "\<dots> = (\<exists>m. sublist m (c # cs) \<and> map canonicalize m = map canonicalize pat)"
    by (auto simp: sublist_Cons_right)
  finally show ?case .
qed

subsection \<open>Namespaces\<close>


subsection \<open>The Extractor\<close>

lemma firstSome_target:
  "map_option getText (firstSome targetInterfaceIdentifier ds) =
     (case find isTargetQualifiedName ds of Some (QualifiedName l r) \<Rightarrow> Some (getText r) | _ \<Rightarrow> None)"
proof (induction ds)
  case Nil
  then show ?case by simp
next
  case (Cons d ds)
  show ?case
  proof (cases d)
    case (Identifier x)
    then show ?thesis using Cons by (simp add: targetInterfaceIdentifier_def)
  next
    case (QualifiedName l r)
    then show ?thesis using Cons by (simp add: targetInterfaceIdentifier_def)
  next
    case (OtherNode t cs)
    then show ?thesis using Cons by (simp add: targetInterfaceIdentifier_def)
  qed
qed

lemma forEachDescendant_target:
  "map_option getText (forEachDescendant targetInterfaceIdentifier t) = targetTypeName t"
  unfolding targetTypeName_def forEachDescendant_firstSome(1) by (rule firstSome_target)

lemma set_fold_setAdd: "set (fold setAdd xs names) = set xs \<union> set names"
  by (induction xs arbitrary: names) (auto simp: setAdd_def)

lemma distinct_fold_setAdd: "distinct names \<Longrightarrow> distinct (fold setAdd xs names)"
  by (induction xs arbitrary: names) (auto simp: setAdd_def)

lemma extractProperties_ok:
  "\<forall>p\<in>set (getProperties ms). propertyTarget p \<noteq> None \<Longrightarrow>
   extractProperties ms names =
     Inr (map retypeMember ms,
          fold setAdd (List.map_filter propertyTarget (getProperties ms)) names)"
proof (induction ms arbitrary: names)
  case Nil
  then show ?case by (simp add: List.map_filter_simps)
next
  case (Cons m ms)
  show ?case
  proof (cases m)
    case (OtherMember x)
    then show ?thesis using Cons by simp
  next
    case (PropertySignature p)
    from Cons.prems obtain name where name: "propertyTarget p = Some name"
      by (auto simp: PropertySignature)
    then obtain t where t: "propertyType p = Some t" "targetTypeName t = Some name"
      by (auto simp: propertyTarget_def split: option.splits)
    from t(2) obtain target where target:
      "forEachDescendant targetInterfaceIdentifier t = Some target" "getText target = name"
      using forEachDescendant_target [of t] by (cases "forEachDescendant targetInterfaceIdentifier t") auto
    have rest: "\<forall>p\<in>set (getProperties ms). propertyTarget p \<noteq> None"
      using Cons.prems by (simp add: PropertySignature)
    show ?thesis
      using Cons.IH [OF rest, of "setAdd name names"] t(1) target name
      by (simp add: PropertySignature List.map_filter_simps)
  qed
qed

lemma extractProperties_fails:
  "\<exists>p\<in>set (getProperties ms). propertyTarget p = None \<Longrightarrow>
   \<exists>e. extractProperties ms names = Inl e"
proof (induction ms arbitrary: names)
  case Nil
  then show ?case by simp
next
  case (Cons m ms)
  show ?case
  proof (cases m)
    case (OtherMember x)
    then show ?thesis using Cons.IH [of names] Cons.prems by auto
  next
    case (PropertySignature p)
    show ?thesis
    proof (cases "propertyTarget p")
      case None
      then have "propertyType p = None \<or>
        (\<exists>t. propertyType p = Some t \<and> forEachDescendant targetInterfaceIdentifier t = None)"
        by (auto simp: propertyTarget_def forEachDescendant_target [symmetric]
            split: option.splits)
      then show ?thesis by (auto simp: PropertySignature)
    next
      case (Some name)
      then have "\<exists>p\<in>set (getProperties ms). propertyTarget p = None"
        using Cons.prems by (auto simp: PropertySignature)
      from Cons.IH [OF this] have ih: "\<exists>e. extractProperties ms names' = Inl e" for names'
        by blast
      from Some obtain t where t: "propertyType p = Some t" "targetTypeName t = Some name"
        by (auto simp: propertyTarget_def split: option.splits)
      from t(2) obtain target where target:
        "forEachDescendant targetInterfaceIdentifier t = Some target"
        using forEachDescendant_target [of t]
        by (cases "forEachDescendant targetInterfaceIdentifier t") auto
      from ih [of "setAdd (getText target) names"] obtain e where
        "extractProperties ms (setAdd (getText target) names) = Inl e" by blast
      then have "extractProperties (m # ms) names = Inl e"
        using t(1) target by (simp add: PropertySignature)
      then show ?thesis by blast
    qed
  qed
qed

subsection \<open>The Normalizer in closed form\<close>

lemma updateAttributesInterface_eq:
  "updateAttributesInterface i =
     (case find (\<lambda>e. expression e \<noteq> ''ClassAttributes'' \<and> \<not> isExpectedParent (expression e))
             (extends i) of
        Some bad \<Rightarrow> Inl (AssertionError
          (''Interface '' @ interfaceName i @ '' has unexpected parent interface: '' @ expression bad))
      | None \<Rightarrow>
          (if \<exists>m\<in>set (members i). lacksType m then Inl typeAssertion
           else Inr (i\<lparr>typeParameters := [],
                      extends := map eraseTypeArguments
                        (filter (\<lambda>e. expression e \<noteq> ''ClassAttributes'') (extends i)),
                      members := concat (map keptMember (members i)) @
                                 concat (map duplicateMember (members i))\<rparr>)))"
proof -
  have "updateExtends (interfaceName i) (extends i) (extends i)
        = updateExtends (interfaceName i) (extends i) (extends i @ [])" by simp
  then show ?thesis
    unfolding updateAttributesInterface_def updateProperties_eq
    by (simp only: updateExtends_invariant) (simp split: option.splits)
qed

lemma updateAttributesInterface_name:
  "updateAttributesInterface i = Inr u \<Longrightarrow> interfaceName u = interfaceName i"
  by (auto simp: updateAttributesInterface_def split: sum.splits)

subsection \<open>The second pass\<close>



subsection \<open>Consequences of a successful normalization\<close>

lemma updateAttributesInterface_members:
  assumes "updateAttributesInterface i = Inr i'"
  shows "members i' = concat (map keptMember (members i)) @
                      concat (map duplicateMember (members i))"
    and "\<not> (\<exists>m\<in>set (members i). lacksType m)"
    and "interfaceName i' = interfaceName i"
    and "extends i' = map eraseTypeArguments
           (filter (\<lambda>e. expression e \<noteq> ''ClassAttributes'') (extends i))"
  using assms unfolding updateAttributesInterface_eq
  by (auto split: option.splits if_splits)

lemma in_concat_map: "x \<in> set xs \<Longrightarrow> y \<in> set (f x) \<Longrightarrow> y \<in> set (concat (map f xs))"
  by auto

lemma example_label_run:
  "updateAttributesInterface labelAttributes = Inr labelAttributesNormalized"
  by code_simp

lemma length_getPropertyNodes:
  "length (getPropertyNodes ns) = length (getProperties (map snd ns))"
  by (induction ns rule: getPropertyNodes.induct) simp_all

lemma duplicateMembers_eq:
  "\<forall>m\<in>set ms. \<not> lacksType m \<Longrightarrow>
   concat (map duplicateMember ms) =
   map (\<lambda>p. PropertySignature
          (p\<lparr>propertyName := (if propertyName p = ''className'' then ''class'' else ''for''),
             propertyType :=
               map_option (\<lambda>t. typeNodeOfText (normalizeAttributeType (getText t)))
                 (propertyType p)\<rparr>))
     (filter (\<lambda>p. propertyName p = ''className'' \<or> propertyName p = ''htmlFor'')
        (getProperties ms))"
proof (induction ms)
  case Nil
  then show ?case by simp
next
  case (Cons m ms)
  show ?case
  proof (cases m)
    case (OtherMember x)
    then show ?thesis using Cons by simp
  next
    case (PropertySignature p)
    have ih: "concat (map duplicateMember ms) =
      map (\<lambda>p. PropertySignature
          (p\<lparr>propertyName := (if propertyName p = ''className'' then ''class'' else ''for''),
             propertyType :=
               map_option (\<lambda>t. typeNodeOfText (normalizeAttributeType (getText t)))
                 (propertyType p)\<rparr>))
        (filter (\<lambda>p. propertyName p = ''className'' \<or> propertyName p = ''htmlFor'')
           (getProperties ms))"
      using Cons by simp
    show ?thesis
    proof (cases "propertyName p = ''className'' \<or> propertyName p = ''htmlFor''")
      case False
      then have "duplicateMember m = []"
        by (simp add: PropertySignature split: option.splits)
      then show ?thesis using False ih by (simp add: PropertySignature)
    next
      case True
      then have u: "\<not> isUnsupportedProperty (propertyName p)"
        by (auto simp: isUnsupportedProperty_def)
      then obtain t where t: "propertyType p = Some t"
        using Cons.prems by (auto simp: PropertySignature)
      have "duplicateMember m =
        [PropertySignature
          (p\<lparr>propertyName := (if propertyName p = ''className'' then ''class'' else ''for''),
             propertyType := Some (typeNodeOfText (normalizeAttributeType (getText t)))\<rparr>)]"
        using True u t by (auto simp: PropertySignature normalizeStructure_def Let_def)
      then show ?thesis using True ih t by (simp add: PropertySignature)
    qed
  qed
qed


subsection \<open>The output of a successful run\<close>

lemma example_run: "buildTypeDefinitions inputTypes reactTypes = Inr generatedTypes"
  by code_simp


section \<open>Properties of the attribute-type normalization\<close>

text \<open>
  Claim C9. The attribute-type normalization is idempotent: for every type text,
  normalizing the normalized text gives the normalized text again.
\<close>

theorem normalizeAttributeType_idempotent:
  "normalizeAttributeType (normalizeAttributeType s) = normalizeAttributeType s"
proof -
  let ?t = "regexTestIgnoreCase ''EventHandler''"
  have pat: "''EventHandler'' \<noteq> []" "\<forall>p\<in>set ''EventHandler''. isWordChar p"
    by (simp_all add: isWordChar_def)
  consider (eh) "?t s" | (rn) "\<not> ?t s" "s = ''ReactNode''" | (w) "\<not> ?t s" "s \<noteq> ''ReactNode''"
    by blast
  then show ?thesis
  proof cases
    case eh
    have "normalizeAttributeType ''string'' = ''string''"
      by code_simp
    moreover have "normalizeAttributeType s = ''string''"
      using eh by (simp add: normalizeAttributeType_def)
    ultimately show ?thesis by (simp only:)
  next
    case rn
    have "normalizeAttributeType ''any'' = ''any''"
      by code_simp
    moreover have "normalizeAttributeType s = ''any''"
      using rn by (simp add: normalizeAttributeType_def)
    ultimately show ?thesis by (simp only:)
  next
    case w
    let ?r = "mapWordRuns replaceKnownWords s"
    have r: "normalizeAttributeType s = ?r"
      using w by (simp add: normalizeAttributeType_def replace_words_eq_mapWordRuns)
    have "?t ?r = ?t s"
      by (rule regexTestIgnoreCase_mapWordRuns [OF pat]) (rule regexTest_replaceKnownWords)
    then have nt: "\<not> ?t ?r" using w by simp
    have nr: "?r \<noteq> ''ReactNode''"
    proof
      assume eq: "?r = ''ReactNode''"
      then have "\<forall>x\<in>set ?r. isWordChar x" by (simp add: isWordChar_def)
      from mapWordRuns_all_word [OF this] eq
      have "replaceKnownWords s = ''ReactNode''" by auto
      then show False using w(2) by (cases s rule: replaceKnownWords_cases) simp_all
    qed
    have "normalizeAttributeType ?r = mapWordRuns replaceKnownWords ?r"
      using nt nr unfolding normalizeAttributeType_def replace_words_eq_mapWordRuns
      by (simp only: if_False)
    then show ?thesis
      unfolding r by (simp only: mapWordRuns_replaceKnownWords_idem)
  qed
qed

theorem normalizeAttributeType_idempotent_witness:
  "normalizeAttributeType ''CSSProperties | Booleanish'' = ''string | (boolean | 'true' | 'false')'' \<and>
   normalizeAttributeType ''string | (boolean | 'true' | 'false')''
     = ''string | (boolean | 'true' | 'false')''"
proof -
  have a: "normalizeAttributeType ''CSSProperties | Booleanish''
           = ''string | (boolean | 'true' | 'false')''"
    by code_simp
  from normalizeAttributeType_idempotent [of "''CSSProperties | Booleanish''"]
  show ?thesis unfolding a using a by simp
qed

text \<open>
  Claim C6. A type text that contains \<open>EventHandler\<close>, in any mix of upper and
  lower case, is normalized to exactly \<open>string\<close>; the property loop gives this
  type to every property it normalizes (all but \<open>dangerouslySetInnerHTML\<close>) and
  keeps the question mark. The property \<open>onClick?: MouseEventHandler<T>\<close> of an
  interface becomes \<open>onclick?: string\<close>: the name in lower case, the question
  mark kept.
\<close>

theorem event_handlers_become_string:
  "((\<exists>m. sublist m attrType \<and> map canonicalize m = map canonicalize ''EventHandler'') \<longrightarrow>
      normalizeAttributeType attrType = ''string'' \<and>
      (propertyName p \<noteq> ''dangerouslySetInnerHTML'' \<longrightarrow>
         propertyType (normalizeStructure p attrType) = Some (typeNodeOfText ''string'') \<and>
         hasQuestionToken (normalizeStructure p attrType) = hasQuestionToken p)) \<and>
   updateAttributesInterface
     \<lparr>interfaceName = ''DOMAttributes'', typeParameters = [''T''], extends = [],
      members = [PropertySignature
        \<lparr>propertyName = ''onClick'',
         propertyType = Some (OtherNode ''MouseEventHandler<T>''
                                [Identifier ''MouseEventHandler'', typeReference ''T'']),
         hasQuestionToken = True\<rparr>]\<rparr>
   = Inr \<lparr>interfaceName = ''DOMAttributes'', typeParameters = [], extends = [],
          members = [PropertySignature
            \<lparr>propertyName = ''onclick'', propertyType = Some (typeNodeOfText ''string''),
             hasQuestionToken = True\<rparr>]\<rparr>"
proof
  have "normalizeAttributeType attrType = ''string''"
    if "\<exists>m. sublist m attrType \<and> map canonicalize m = map canonicalize ''EventHandler''"
    using that unfolding regexTestIgnoreCase_iff [symmetric] normalizeAttributeType_def
    by (simp only: if_True)
  then show "(\<exists>m. sublist m attrType \<and> map canonicalize m = map canonicalize ''EventHandler'') \<longrightarrow>
      normalizeAttributeType attrType = ''string'' \<and>
      (propertyName p \<noteq> ''dangerouslySetInnerHTML'' \<longrightarrow>
         propertyType (normalizeStructure p attrType) = Some (typeNodeOfText ''string'') \<and>
         hasQuestionToken (normalizeStructure p attrType) = hasQuestionToken p)"
    by (simp add: normalizeStructure_def Let_def)
next
  show "updateAttributesInterface
     \<lparr>interfaceName = ''DOMAttributes'', typeParameters = [''T''], extends = [],
      members = [PropertySignature
        \<lparr>propertyName = ''onClick'',
         propertyType = Some (OtherNode ''MouseEventHandler<T>''
                                [Identifier ''MouseEventHandler'', typeReference ''T'']),
         hasQuestionToken = True\<rparr>]\<rparr>
   = Inr \<lparr>interfaceName = ''DOMAttributes'', typeParameters = [], extends = [],
          members = [PropertySignature
            \<lparr>propertyName = ''onclick'', propertyType = Some (typeNodeOfText ''string''),
             hasQuestionToken = True\<rparr>]\<rparr>"
    by code_simp
qed

theorem event_handlers_become_string_witness:
  "sublist ''EVENTHANDLER'' ''(e: Event) => EVENTHANDLER | null'' \<and>
   normalizeAttributeType ''(e: Event) => EVENTHANDLER | null'' = ''string'' \<and>
   normalizeStructure onClickProperty ''(e: Event) => EVENTHANDLER | null'' =
     \<lparr>propertyName = ''onclick'', propertyType = Some (typeNodeOfText ''string''),
      hasQuestionToken = True\<rparr>"
proof -
  let ?t = "''(e: Event) => EVENTHANDLER | null''"
  have s: "sublist ''EVENTHANDLER'' ?t"
    by code_simp
  have c: "map canonicalize ''EVENTHANDLER'' = map canonicalize ''EventHandler''"
    by code_simp
  have n: "propertyName onClickProperty \<noteq> ''dangerouslySetInnerHTML''"
    "hasQuestionToken onClickProperty = True"
    by (simp_all add: onClickProperty_def)
  have l: "propertyName (normalizeStructure onClickProperty ?t) = ''onclick''"
    by code_simp
  from s c have "\<exists>m. sublist m ?t \<and> map canonicalize m = map canonicalize ''EventHandler''"
    by blast
  with event_handlers_become_string [of ?t onClickProperty] n
  have "normalizeAttributeType ?t = ''string''"
    "propertyType (normalizeStructure onClickProperty ?t) = Some (typeNodeOfText ''string'')"
    "hasQuestionToken (normalizeStructure onClickProperty ?t) = True"
    by simp_all
  then show ?thesis using s l by (cases "normalizeStructure onClickProperty ?t") simp

qed

section \<open>Properties of the Normalizer\<close>

text \<open>
  Claim C5. Every extends clause of a normalized interface is treated by its
  expression: a \<open>ClassAttributes\<close> clause is removed; a clause whose expression is
  none of \<open>AriaAttributes\<close>, \<open>DOMAttributes\<close>, \<open>HTMLAttributes\<close>,
  \<open>MediaHTMLAttributes\<close>, \<open>SVGAttributes\<close> stops the run with an assertion error
  that names the interface and the parent; every other clause is replaced by the
  bare expression, without type arguments, in the original order.
\<close>

theorem normalizer_rewrites_extends:
  "updateAttributesInterface i =
     (case find (\<lambda>e. expression e \<noteq> ''ClassAttributes'' \<and>
                     expression e \<notin> set [''AriaAttributes'', ''DOMAttributes'',
                       ''HTMLAttributes'', ''MediaHTMLAttributes'', ''SVGAttributes''])
             (extends i) of
        Some bad \<Rightarrow>
          Inl (AssertionError
                (''Interface '' @ interfaceName i @
                 '' has unexpected parent interface: '' @ expression bad))
      | None \<Rightarrow>
          (case updateProperties (members i) of
             Inl e \<Rightarrow> Inl e
           | Inr ms \<Rightarrow>
               Inr (i\<lparr>typeParameters := [],
                      extends := map (\<lambda>e. \<lparr>expression = expression e, typeArguments = []\<rparr>)
                                   (filter (\<lambda>e. expression e \<noteq> ''ClassAttributes'') (extends i)),
                      members := ms\<rparr>)))"
proof -
  have e: "updateExtends (interfaceName i) (extends i) (extends i)
           = updateExtends (interfaceName i) (extends i) (extends i @ [])" by simp
  have m: "map eraseTypeArguments xs
           = map (\<lambda>e. \<lparr>expression = expression e, typeArguments = []\<rparr>) xs" for xs
    by (simp add: eraseTypeArguments_def)
  show ?thesis
    unfolding updateAttributesInterface_def e updateExtends_invariant isExpectedParent_def m
    by (simp split: option.splits)
qed

theorem normalizer_rewrites_extends_witness:
  "updateAttributesInterface svgProps =
     Inr \<lparr>interfaceName = ''SVGProps'', typeParameters = [],
          extends = [\<lparr>expression = ''SVGAttributes'', typeArguments = []\<rparr>], members = []\<rparr> \<and>
   updateAttributesInterface buttonProps =
     Inl (AssertionError ''Interface ButtonProps has unexpected parent interface: Props'')"
proof -
  have p: "updateProperties [] = Inr []" by code_simp
  have "updateAttributesInterface svgProps =
     Inr \<lparr>interfaceName = ''SVGProps'', typeParameters = [],
          extends = [\<lparr>expression = ''SVGAttributes'', typeArguments = []\<rparr>], members = []\<rparr>"
    unfolding normalizer_rewrites_extends [of svgProps] by (simp add: svgProps_def p)
  moreover have "updateAttributesInterface buttonProps =
     Inl (AssertionError ''Interface ButtonProps has unexpected parent interface: Props'')"
    unfolding normalizer_rewrites_extends [of buttonProps] by (simp add: buttonProps_def)
  ultimately show ?thesis by (rule conjI)
qed

text \<open>
  Claim C2, as the code has it. A property named \<open>className\<close> or \<open>htmlFor\<close> of a
  normalized interface stays in the interface under its own, unchanged name
  (these two names are exempt from lower-casing), and the interface also has a
  copy of it named \<open>class\<close> or \<open>for\<close>; both carry the same type, the normalized
  text of the original type. The Emitter writes this interface out as it is.
\<close>

theorem aliased_property_and_its_duplicate:
  assumes "updateAttributesInterface i = Inr i'"
    and "PropertySignature p \<in> set (members i)"
    and "propertyName p = ''className'' \<or> propertyName p = ''htmlFor''"
  shows "\<exists>t. propertyType p = Some t \<and>
           PropertySignature
             (p\<lparr>propertyType := Some (typeNodeOfText (normalizeAttributeType (getText t)))\<rparr>)
             \<in> set (members i') \<and>
           PropertySignature
             (p\<lparr>propertyName := (if propertyName p = ''className'' then ''class'' else ''for''),
                propertyType := Some (typeNodeOfText (normalizeAttributeType (getText t)))\<rparr>)
             \<in> set (members i') \<and>
           emitNode (InterfaceDeclaration i') = InterfaceDeclaration i'"
proof -
  note facts = updateAttributesInterface_members [OF assms(1)]
  have u: "\<not> isUnsupportedProperty (propertyName p)"
    using assms(3) by (auto simp: isUnsupportedProperty_def)
  have "\<not> lacksType (PropertySignature p)" using facts(2) assms(2) by blast
  then obtain t where t: "propertyType p = Some t" using u by auto
  let ?ty = "Some (typeNodeOfText (normalizeAttributeType (getText t)))"
  have s: "normalizeStructure p (getText t) = p\<lparr>propertyType := ?ty\<rparr>"
    using assms(3) by (auto simp: normalizeStructure_def Let_def)
  have "PropertySignature (p\<lparr>propertyType := ?ty\<rparr>) \<in> set (keptMember (PropertySignature p))"
    using u t s by simp
  from in_concat_map [of _ _ _ keptMember, OF assms(2) this]
  have k: "PropertySignature (p\<lparr>propertyType := ?ty\<rparr>) \<in> set (members i')"
    unfolding facts(1) by simp
  have "PropertySignature
          (p\<lparr>propertyName := (if propertyName p = ''className'' then ''class'' else ''for''),
             propertyType := ?ty\<rparr>) \<in> set (duplicateMember (PropertySignature p))"
    using u t s assms(3) by auto
  from in_concat_map [of _ _ _ duplicateMember, OF assms(2) this]
  have d: "PropertySignature
          (p\<lparr>propertyName := (if propertyName p = ''className'' then ''class'' else ''for''),
             propertyType := ?ty\<rparr>) \<in> set (members i')"
    unfolding facts(1) by simp
  have "getProperties (members i') \<noteq> []"
  proof
    assume "getProperties (members i') = []"
    moreover have "PropertySignature q \<in> set ms \<Longrightarrow> getProperties ms \<noteq> []" for q ms
      by (induction ms rule: getProperties.induct) auto
    ultimately show False using k by blast
  qed
  then have e: "emitNode (InterfaceDeclaration i') = InterfaceDeclaration i'" by simp
  show ?thesis using t k d e by blast
qed


theorem aliased_property_and_its_duplicate_witness:
  "updateAttributesInterface labelAttributes = Inr labelAttributesNormalized \<and>
   PropertySignature
     \<lparr>propertyName = ''className'', propertyType = Some (OtherNode ''string'' []),
      hasQuestionToken = True\<rparr> \<in> set (members labelAttributes) \<and>
   PropertySignature
     \<lparr>propertyName = ''className'', propertyType = Some (typeNodeOfText ''string''),
      hasQuestionToken = True\<rparr> \<in> set (members labelAttributesNormalized) \<and>
   PropertySignature
     \<lparr>propertyName = ''class'', propertyType = Some (typeNodeOfText ''string''),
      hasQuestionToken = True\<rparr> \<in> set (members labelAttributesNormalized) \<and>
   emitNode (InterfaceDeclaration labelAttributesNormalized) =
     InterfaceDeclaration labelAttributesNormalized"
proof -
  let ?p = "\<lparr>propertyName = ''className'', propertyType = Some (OtherNode ''string'' []),
             hasQuestionToken = True\<rparr>"
  have m: "PropertySignature ?p \<in> set (members labelAttributes)"
    by (simp add: labelAttributes_def)
  have n: "propertyName ?p = ''className'' \<or> propertyName ?p = ''htmlFor''" by simp
  have t: "normalizeAttributeType ''string'' = ''string''" by code_simp
  from aliased_property_and_its_duplicate [OF example_label_run m n]
  show ?thesis using example_label_run m t by simp
qed

theorem lowercase_alias_counterexample:
  "updateAttributesInterface labelAttributes = Inr labelAttributesNormalized \<and>
   map propertyName (getProperties (members labelAttributesNormalized))
     = [''form'', ''htmlFor'', ''className'', ''style'', ''onclick'', ''for'', ''class''] \<and>
   toLowerCase ''className'' = ''classname'' \<and>
   toLowerCase ''className''
     \<notin> set (map propertyName (getProperties (members labelAttributesNormalized))) \<and>
   toLowerCase ''htmlFor'' = ''htmlfor'' \<and>
   toLowerCase ''htmlFor''
     \<notin> set (map propertyName (getProperties (members labelAttributesNormalized)))"
proof -
  have "map propertyName (getProperties (members labelAttributesNormalized))
     = [''form'', ''htmlFor'', ''className'', ''style'', ''onclick'', ''for'', ''class'']"
    by (simp add: labelAttributesNormalized_def)
  moreover have "toLowerCase ''className'' = ''classname''" "toLowerCase ''htmlFor'' = ''htmlfor''"
    by code_simp+
  ultimately show ?thesis using example_label_run by simp
qed

text \<open>
  Claim C10. The property loop runs once for each property signature the
  interface had before the loop started. The copies made for \<open>className\<close> and
  \<open>htmlFor\<close> stand behind all original members, in the order of their originals,
  one for each such property. A copy is its original with the name \<open>class\<close> or
  \<open>for\<close> and with the type normalized once; the loop does not visit it, so it is
  not renamed, retyped, removed or copied again.
\<close>

theorem duplicates_are_appended_once:
  assumes "updateAttributesInterface i = Inr i'"
  shows "members i' =
           concat (map keptMember (members i)) @
           map (\<lambda>p. PropertySignature
                  (p\<lparr>propertyName :=
                       (if propertyName p = ''className'' then ''class'' else ''for''),
                     propertyType :=
                       map_option (\<lambda>t. typeNodeOfText (normalizeAttributeType (getText t)))
                         (propertyType p)\<rparr>))
             (filter (\<lambda>p. propertyName p = ''className'' \<or> propertyName p = ''htmlFor'')
                (getProperties (members i))) \<and>
         length (getPropertyNodes (numberMembers (members i))) =
           length (getProperties (members i))"
proof -
  note facts = updateAttributesInterface_members [OF assms]
  have "\<forall>m\<in>set (members i). \<not> lacksType m" using facts(2) by blast
  from duplicateMembers_eq [OF this] show ?thesis
    using facts(1) length_getPropertyNodes [of "numberMembers (members i)"]
    by (simp add: numberMembers_snd)
qed

theorem duplicates_are_appended_once_witness:
  "updateAttributesInterface labelAttributes = Inr labelAttributesNormalized \<and>
   members labelAttributesNormalized =
     [PropertySignature \<lparr>propertyName = ''form'',
        propertyType = Some (OtherNode ''string'' []), hasQuestionToken = True\<rparr>,
      PropertySignature \<lparr>propertyName = ''htmlFor'',
        propertyType = Some (OtherNode ''string'' []), hasQuestionToken = True\<rparr>,
      PropertySignature \<lparr>propertyName = ''className'',
        propertyType = Some (OtherNode ''string'' []), hasQuestionToken = True\<rparr>,
      PropertySignature \<lparr>propertyName = ''style'',
        propertyType = Some (OtherNode ''string'' []), hasQuestionToken = True\<rparr>,
      OtherMember ''[key: string]: any'',
      PropertySignature \<lparr>propertyName = ''onclick'',
        propertyType = Some (OtherNode ''string'' []), hasQuestionToken = True\<rparr>] @
     [PropertySignature \<lparr>propertyName = ''for'',
        propertyType = Some (OtherNode ''string'' []), hasQuestionToken = True\<rparr>,
      PropertySignature \<lparr>propertyName = ''class'',
        propertyType = Some (OtherNode ''string'' []), hasQuestionToken = True\<rparr>] \<and>
   concat (map keptMember (members labelAttributes)) =
     [PropertySignature \<lparr>propertyName = ''form'',
        propertyType = Some (OtherNode ''string'' []), hasQuestionToken = True\<rparr>,
      PropertySignature \<lparr>propertyName = ''htmlFor'',
        propertyType = Some (OtherNode ''string'' []), hasQuestionToken = True\<rparr>,
      PropertySignature \<lparr>propertyName = ''className'',
        propertyType = Some (OtherNode ''string'' []), hasQuestionToken = True\<rparr>,
      PropertySignature \<lparr>propertyName = ''style'',
        propertyType = Some (OtherNode ''string'' []), hasQuestionToken = True\<rparr>,
      OtherMember ''[key: string]: any'',
      PropertySignature \<lparr>propertyName = ''onclick'',
        propertyType = Some (OtherNode ''string'' []), hasQuestionToken = True\<rparr>] \<and>
   length (getPropertyNodes (numberMembers (members labelAttributes))) = 6"
proof -
  have k: "concat (map keptMember (members labelAttributes)) =
     [PropertySignature \<lparr>propertyName = ''form'',
        propertyType = Some (OtherNode ''string'' []), hasQuestionToken = True\<rparr>,
      PropertySignature \<lparr>propertyName = ''htmlFor'',
        propertyType = Some (OtherNode ''string'' []), hasQuestionToken = True\<rparr>,
      PropertySignature \<lparr>propertyName = ''className'',
        propertyType = Some (OtherNode ''string'' []), hasQuestionToken = True\<rparr>,
      PropertySignature \<lparr>propertyName = ''style'',
        propertyType = Some (OtherNode ''string'' []), hasQuestionToken = True\<rparr>,
      OtherMember ''[key: string]: any'',
      PropertySignature \<lparr>propertyName = ''onclick'',
        propertyType = Some (OtherNode ''string'' []), hasQuestionToken = True\<rparr>]"
    by code_simp
  have n: "length (getProperties (members labelAttributes)) = 6"
    by (simp add: labelAttributes_def)
  have d: "map (\<lambda>p. PropertySignature
                  (p\<lparr>propertyName :=
                       (if propertyName p = ''className'' then ''class'' else ''for''),
                     propertyType :=
                       map_option (\<lambda>t. typeNodeOfText (normalizeAttributeType (getText t)))
                         (propertyType p)\<rparr>))
             (filter (\<lambda>p. propertyName p = ''className'' \<or> propertyName p = ''htmlFor'')
                (getProperties (members labelAttributes))) =
     [PropertySignature \<lparr>propertyName = ''for'',
        propertyType = Some (OtherNode ''string'' []), hasQuestionToken = True\<rparr>,
      PropertySignature \<lparr>propertyName = ''class'',
        propertyType = Some (OtherNode ''string'' []), hasQuestionToken = True\<rparr>]"
    by code_simp
  from duplicates_are_appended_once [OF example_label_run]
  show ?thesis unfolding k n d using example_label_run k by simp
qed

section \<open>Properties of the Extractor\<close>

text \<open>
  Claim C4. Let \<open>IntrinsicElements\<close> be found under \<open>global.JSX\<close>. If every one of
  its property signatures has, among the descendants of its type, a qualified
  name with \<open>React\<close> on the left and an identifier other than \<open>DetailedHTMLProps\<close>
  on the right, the Extractor returns the interface with the type of every
  property replaced by the right-hand identifier of the first such name, and
  the returned set holds exactly these identifiers. If some property has no such
  name, or no type at all, the Extractor fails.
\<close>

theorem extractor_rewrites_every_property:
  assumes "getNamespaceOrThrow ''global'' sourceFile = Inr global"
    and "getNamespaceOrThrow ''JSX'' global = Inr jsx"
    and "getInterfaceOrThrow ''IntrinsicElements'' jsx = Inr intrinsic"
  shows "if \<forall>p\<in>set (getProperties (members intrinsic)). propertyTarget p \<noteq> None
         then \<exists>names sourceFile'.
                extractIntrinsicElementsInterface sourceFile =
                  Inr (intrinsic\<lparr>members := map retypeMember (members intrinsic)\<rparr>,
                       names, sourceFile') \<and>
                distinct names \<and>
                set names =
                  set (List.map_filter propertyTarget (getProperties (members intrinsic)))
         else \<exists>e. extractIntrinsicElementsInterface sourceFile = Inl e"
proof (cases "\<forall>p\<in>set (getProperties (members intrinsic)). propertyTarget p \<noteq> None")
  case True
  let ?names = "fold setAdd (List.map_filter propertyTarget (getProperties (members intrinsic))) []"
  have "extractProperties (members intrinsic) [] =
          Inr (map retypeMember (members intrinsic), ?names)"
    using True by (rule extractProperties_ok)
  then have "\<exists>sourceFile'. extractIntrinsicElementsInterface sourceFile =
          Inr (intrinsic\<lparr>members := map retypeMember (members intrinsic)\<rparr>, ?names, sourceFile')"
    using assms by (simp add: extractIntrinsicElementsInterface_def Let_def)
  moreover have "distinct ?names" by (rule distinct_fold_setAdd) simp
  moreover have "set ?names =
      set (List.map_filter propertyTarget (getProperties (members intrinsic)))"
    by (simp add: set_fold_setAdd)
  ultimately show ?thesis using True by auto
next
  case False
  then have "\<exists>p\<in>set (getProperties (members intrinsic)). propertyTarget p = None" by simp
  from extractProperties_fails [OF this, of "[]"] obtain e where
    "extractProperties (members intrinsic) [] = Inl e" by blast
  then have "extractIntrinsicElementsInterface sourceFile = Inl e"
    using assms by (simp add: extractIntrinsicElementsInterface_def)
  then show ?thesis using False by auto
qed

theorem extractor_rewrites_every_property_witness:
  "getInterfaceOrThrow ''IntrinsicElements''
     [Declaration (InterfaceDeclaration intrinsicElements)] = Inr intrinsicElements \<and>
   List.map_filter propertyTarget (getProperties (members intrinsicElements))
     = [''AnchorHTMLAttributes'', ''SVGProps'', ''RefProps''] \<and>
   (\<exists>names sourceFile'.
      extractIntrinsicElementsInterface reactTypes =
        Inr (intrinsicElementsExtracted, names, sourceFile') \<and>
      distinct names \<and>
      set names = set [''AnchorHTMLAttributes'', ''SVGProps'', ''RefProps''])"
proof -
  let ?jsx = "[Declaration (InterfaceDeclaration intrinsicElements)]"
  have g: "getNamespaceOrThrow ''global'' reactTypes = Inr [ModuleDeclaration ''JSX'' ?jsx]"
    by (simp add: reactTypes_def)
  have j: "getNamespaceOrThrow ''JSX'' [ModuleDeclaration ''JSX'' ?jsx] = Inr ?jsx"
    by simp
  have i: "getInterfaceOrThrow ''IntrinsicElements'' ?jsx = Inr intrinsicElements"
    by (simp add: intrinsicElements_def)
  have t: "List.map_filter propertyTarget (getProperties (members intrinsicElements))
     = [''AnchorHTMLAttributes'', ''SVGProps'', ''RefProps'']"
    by code_simp
  have a: "\<forall>p\<in>set (getProperties (members intrinsicElements)). propertyTarget p \<noteq> None"
    by code_simp
  have r: "intrinsicElements\<lparr>members := map retypeMember (members intrinsicElements)\<rparr>
           = intrinsicElementsExtracted"
    by code_simp
  from extractor_rewrites_every_property [OF g j i] a
  have "\<exists>names sourceFile'.
      extractIntrinsicElementsInterface reactTypes =
        Inr (intrinsicElementsExtracted, names, sourceFile') \<and>
      distinct names \<and>
      set names = set [''AnchorHTMLAttributes'', ''SVGProps'', ''RefProps'']"
    unfolding t r by simp
  then show ?thesis using i t by blast
qed

section \<open>Properties of the second pass\<close>




section \<open>Properties of the Emitter\<close>



text \<open>
  Claim C8. A normalized interface that is left without property signatures and
  without extends clauses is still turned into a type alias: the alias has the
  name of the interface and the empty string as its type, the join of no
  parenthesized expressions. The Emitter has no error to raise.
\<close>

theorem empty_interface_without_parents_becomes_empty_alias:
  assumes "updateAttributesInterface i = Inr i'"
    and "getProperties (members i') = []" and "extends i' = []"
  shows "emitNode (InterfaceDeclaration i') =
           TypeAliasDeclaration
             \<lparr>aliasName = interfaceName i, aliasTypeParameters = [], aliasType = []\<rparr>"
  using assms updateAttributesInterface_name [OF assms(1)] by simp

theorem empty_interface_without_parents_becomes_empty_alias_witness:
  "updateAttributesInterface refProps =
     Inr \<lparr>interfaceName = ''RefProps'', typeParameters = [], extends = [], members = []\<rparr> \<and>
   emitNode (InterfaceDeclaration
     \<lparr>interfaceName = ''RefProps'', typeParameters = [], extends = [], members = []\<rparr>) =
     TypeAliasDeclaration
       \<lparr>aliasName = ''RefProps'', aliasTypeParameters = [], aliasType = []\<rparr> \<and>
   buildTypeDefinitions inputTypes reactTypes = Inr generatedTypes \<and>
   Declaration (TypeAliasDeclaration
     \<lparr>aliasName = ''RefProps'', aliasTypeParameters = [], aliasType = []\<rparr>)
     \<in> set generatedStatements"
proof -
  let ?i = "\<lparr>interfaceName = ''RefProps'', typeParameters = [], extends = [], members = []\<rparr>"
  have r: "updateAttributesInterface refProps = Inr ?i" by code_simp
  have n: "interfaceName refProps = ''RefProps''" by (simp add: refProps_def)
  have m: "Declaration (TypeAliasDeclaration
     \<lparr>aliasName = ''RefProps'', aliasTypeParameters = [], aliasType = []\<rparr>)
     \<in> set generatedStatements" by (simp add: generatedStatements_def)
  from empty_interface_without_parents_becomes_empty_alias [OF r]
  have "emitNode (InterfaceDeclaration ?i) =
     TypeAliasDeclaration
       \<lparr>aliasName = ''RefProps'', aliasTypeParameters = [], aliasType = []\<rparr>"
    unfolding n by simp
  then show ?thesis using r m example_run by blast
qed

end
